theory Spec2Isabelle
  imports Main
begin

section \<open>The capture source controller (pkg/pipeline/source/web.go)\<close>

text \<open>
  The file web.go holds two copies of the controller. They share the struct, the accessors,
  \<open>Close\<close>, \<open>createPulseSink\<close>, \<open>launchXvfb\<close> and the sentinel logic of the console handler;
  they differ in \<open>NewWebSource\<close> (3 attempts and no cancel between attempts in the first
  copy, 5 attempts and a cancel after each failed attempt in the second) and in
  \<open>launchChrome\<close>. What is shared is modelled once; what differs carries the suffix
  \<open>1\<close> (first copy, lines 1 to 431) or \<open>2\<close> (second copy, lines 433 to 823).

  Calls to the logger and the tracer change no state of the controller and are left out
  of this part of the model.
\<close>

subsection \<open>Data\<close>

text \<open>
  A Go \<open>chan struct{}\<close> on which nobody ever sends: the channel object is open or closed,
  and a field holding such a channel is \<open>None\<close> when it is the nil channel.
\<close>

datatype chan = Open | Closed

text \<open>What Go does on \<open>close\<close> of a nil or of an already closed channel.\<close>

datatype panic = CloseOfNilChannel | CloseOfClosedChannel

text \<open>
  The errors the controller hands out. \<open>GoError\<close> is an error of a library (its message);
  the others are the constructors of pkg/errors, which is not among the sources; the
  last one is the \<open>ExhaustedRetries\<close> of the specification's error taxonomy.
\<close>

datatype error =
    GoError string
  | ErrProcessFailed string string
  | ErrPageLoadFailed string
  | ErrChromeFailedToStart string
  | ErrExhaustedRetries error

text \<open>
  What the controller does to the resources outside of it, in the order it does it:
  a sink loaded (\<open>pactl load-module\<close> succeeded), an unload requested, a display started,
  killed and waited for, \<open>launchChrome\<close> entered, a browser handle made, a browser handle
  canceled, a sleep. A browser handle (the composed cancel function of one
  \<open>launchChrome\<close>) is named by a number; \<open>ChromeCancel h\<close> is one call of that function
  (browsing context, then allocator). A display process is named by its display number.
\<close>

datatype event =
    PulseLoad string
  | PulseUnload string
  | XvfbStart nat
  | XvfbKill nat
  | XvfbWait nat
  | LaunchChrome
  | ChromeAlloc nat
  | ChromeCancel nat
  | Sleep nat

type_synonym trace = "event list"

record WebSource =
  pulseSink :: string
  xvfb :: "nat option"
  closeChrome :: "nat option"
  startRecording :: "chan option"
  endRecording :: "chan option"
  info :: string

definition startRecordingLog :: string where
  "startRecordingLog = ''START_RECORDING''"

definition endRecordingLog :: string where
  "endRecordingLog = ''END_RECORDING''"

definition chromeFailedToStart :: string where
  "chromeFailedToStart = ''chrome failed to start:''"

text \<open>Durations are nanoseconds, as \<open>time.Duration\<close> is.\<close>

definition second :: nat where
  "second = 1000000000"

definition chromeTimeout :: nat where
  "chromeTimeout = second * 45"

subsection \<open>Channels\<close>

text \<open>
  A receive from a closed channel returns at once; a receive from an open channel with no
  sender, or from the nil channel, blocks. So a reader sees the signal as occurred exactly
  when the channel it holds is closed.
\<close>

fun recv_ready :: "chan option \<Rightarrow> bool" where
  "recv_ready (Some Closed) = True"
| "recv_ready (Some Open) = False"
| "recv_ready None = False"

fun close_chan :: "chan option \<Rightarrow> panic + chan option" where
  "close_chan None = Inl CloseOfNilChannel"
| "close_chan (Some Closed) = Inl CloseOfClosedChannel"
| "close_chan (Some Open) = Inr (Some Closed)"

subsection \<open>Accessors and Close\<close>

definition StartRecording :: "WebSource \<Rightarrow> chan option" where
  "StartRecording s = startRecording s"

definition EndRecording :: "WebSource \<Rightarrow> chan option" where
  "EndRecording s = endRecording s"

text \<open>
  \<open>Close\<close>: the three guarded teardown steps, in the order of the source. The first two
  reset their field; the third does not touch \<open>pulseSink\<close>. The outcome of
  \<open>pactl unload-module\<close> is only logged.
\<close>

definition Close :: "WebSource \<Rightarrow> trace \<Rightarrow> WebSource \<times> trace" where
  "Close s tr =
     (let (s1, t1) = (case closeChrome s of
                        Some h \<Rightarrow> (s\<lparr>closeChrome := None\<rparr>, tr @ [ChromeCancel h])
                      | None \<Rightarrow> (s, tr));
          (s2, t2) = (case xvfb s1 of
                        Some x \<Rightarrow> (s1\<lparr>xvfb := None\<rparr>, t1 @ [XvfbKill x, XvfbWait x])
                      | None \<Rightarrow> (s1, t1));
          t3 = (if pulseSink s2 \<noteq> [] then t2 @ [PulseUnload (pulseSink s2)] else t2)
      in (s2, t3))"

subsection \<open>The console handler of launchChrome\<close>

text \<open>
  The events of the browser's target. An argument of a console call is given by what
  \<open>json.Unmarshal\<close> followed by \<open>fmt.Sprint\<close> makes of it: \<open>None\<close> when the value does not
  decode, the printed value otherwise.
\<close>

datatype cdp_event =
    EventConsoleAPICalled "string option list"
  | EventExceptionThrown
  | EventResponseReceived
  | EventLoadingFailed
  | EventOther

text \<open>One round of the loop over \<open>ev.Args\<close>.\<close>

fun consoleArg :: "WebSource \<Rightarrow> string option \<Rightarrow> panic + WebSource" where
  "consoleArg s None = Inr s"
| "consoleArg s (Some v) =
     (if v = startRecordingLog then
        (if startRecording s \<noteq> None then
           (if recv_ready (startRecording s) then Inr s
            else (case close_chan (startRecording s) of
                    Inl p \<Rightarrow> Inl p
                  | Inr c \<Rightarrow> Inr (s\<lparr>startRecording := c\<rparr>)))
         else Inr s)
      else if v = endRecordingLog then
        (if endRecording s \<noteq> None then
           (if recv_ready (endRecording s) then Inr s
            else (case close_chan (endRecording s) of
                    Inl p \<Rightarrow> Inl p
                  | Inr c \<Rightarrow> Inr (s\<lparr>endRecording := c\<rparr>)))
         else Inr s)
      else Inr s)"

fun consoleArgs :: "WebSource \<Rightarrow> string option list \<Rightarrow> panic + WebSource" where
  "consoleArgs s [] = Inr s"
| "consoleArgs s (a # as) =
     (case consoleArg s a of Inl p \<Rightarrow> Inl p | Inr s' \<Rightarrow> consoleArgs s' as)"

fun handler :: "WebSource \<Rightarrow> cdp_event \<Rightarrow> panic + WebSource" where
  "handler s (EventConsoleAPICalled args) = consoleArgs s args"
| "handler s EventExceptionThrown = Inr s"
| "handler s EventResponseReceived = Inr s"
| "handler s EventLoadingFailed = Inr s"
| "handler s EventOther = Inr s"

text \<open>The handler run on the events of the target, one after the other.\<close>

fun handleEvents :: "WebSource \<Rightarrow> cdp_event list \<Rightarrow> panic + WebSource" where
  "handleEvents s [] = Inr s"
| "handleEvents s (ev # evs) =
     (case handler s ev of Inl p \<Rightarrow> Inl p | Inr s' \<Rightarrow> handleEvents s' evs)"

subsection \<open>Configuration and environment\<close>

text \<open>
  The fields of \<open>config.PipelineConfig\<close> that the controller branches on. \<open>Display\<close> is
  the number \<open>n\<close> of the display string \<open>:n\<close>; \<open>EgressId\<close> is \<open>p.Info.EgressId\<close>.
\<close>

record PipelineConfig =
  AwaitStartSignal :: bool
  WebUrl :: string
  BaseUrl :: string
  Insecure :: bool
  EgressId :: string
  Display :: nat

text \<open>
  One \<open>chromedp.Run\<close> as the browser answers it: the time it takes to return by itself
  (\<open>None\<close>: it never does) and the message of the error it returns, if any.
\<close>

record run =
  took :: "nat option"
  failed :: "string option"

text \<open>
  The browser during one \<open>launchChrome\<close>: its answers to the first and to the second
  \<open>chromedp.Run\<close> of the function, and the text the page shows in \<open>div.error\<close>.
\<close>

record browser =
  run1 :: run
  run2 :: run
  errString :: string

text \<open>
  Everything outside the program that one \<open>NewWebSource\<close> meets: the draw of
  \<open>rand.Intn(2147483637)\<close>, the outcome of the \<open>pactl load-module\<close> command (the error of
  \<open>cmd.Run\<close>, or its standard output), the error of \<open>xvfb.Start\<close>, the error of
  \<open>url.Parse(p.BaseUrl)\<close>, and the browser at each attempt.
\<close>

record env =
  rand_Intn :: nat
  pactl :: "string + string"
  xvfb_Start :: "string option"
  url_Parse :: "string option"
  chrome :: "nat \<Rightarrow> browser"

subsection \<open>Library functions the controller uses\<close>

definition HasPrefix :: "string \<Rightarrow> string \<Rightarrow> bool" where
  "HasPrefix s pre = (take (length pre) s = pre)"

text \<open>\<open>strings.TrimRight(s, "\n")\<close>: \<open>s\<close> without its trailing line feeds.\<close>

definition TrimRight_nl :: "string \<Rightarrow> string" where
  "TrimRight_nl s = rev (dropWhile (\<lambda>c. c = CHR 0x0A) (rev s))"

text \<open>The name of the next browser handle: the number of handles made so far.\<close>

fun isChromeAlloc :: "event \<Rightarrow> bool" where
  "isChromeAlloc (ChromeAlloc h) = True"
| "isChromeAlloc _ = False"

definition fresh :: "trace \<Rightarrow> nat" where
  "fresh tr = length (filter isChromeAlloc tr)"

subsection \<open>createPulseSink and launchXvfb\<close>

definition createPulseSink ::
  "env \<Rightarrow> PipelineConfig \<Rightarrow> WebSource \<Rightarrow> trace \<Rightarrow> WebSource \<times> trace \<times> error option" where
  "createPulseSink e p s tr =
     (case pactl e of
        Inl m \<Rightarrow> (s, tr, Some (ErrProcessFailed ''pulse'' m))
      | Inr out \<Rightarrow> (s\<lparr>pulseSink := TrimRight_nl out\<rparr>, tr @ [PulseLoad (EgressId p)], None))"

definition launchXvfb ::
  "env \<Rightarrow> PipelineConfig \<Rightarrow> WebSource \<Rightarrow> trace \<Rightarrow> WebSource \<times> trace \<times> error option" where
  "launchXvfb e p s tr =
     (case xvfb_Start e of
        Some m \<Rightarrow> (s, tr, Some (ErrProcessFailed ''xvfb'' m))
      | None \<Rightarrow> (s\<lparr>xvfb := Some (Display p)\<rparr>, tr @ [XvfbStart (Display p)], None))"

subsection \<open>launchChrome, first copy\<close>

text \<open>
  The first \<open>chromedp.Run\<close> of the first copy runs under \<open>navigationCtx\<close>, a context with
  a timeout of 60 seconds: it returns what the browser answers when the browser answers
  before the deadline, and \<open>context.DeadlineExceeded\<close> at the deadline otherwise.
\<close>

definition navigationTimeout :: nat where
  "navigationTimeout = 60 * second"

datatype runerr = DeadlineExceeded | Msg string

definition Run_navigationCtx :: "run \<Rightarrow> nat \<times> runerr option" where
  "Run_navigationCtx r =
     (case took r of
        None \<Rightarrow> (navigationTimeout, Some DeadlineExceeded)
      | Some t \<Rightarrow>
          (if t < navigationTimeout then (t, map_option Msg (failed r))
           else (navigationTimeout, Some DeadlineExceeded)))"

text \<open>
  \<open>launchChrome\<close> gives back the controller, the trace, the time at which it returns
  (\<open>None\<close>: it never returns) and the error it returns. The time the program itself
  spends between the calls of \<open>chromedp.Run\<close> counts as zero.
\<close>

definition launchChrome1 ::
  "env \<Rightarrow> PipelineConfig \<Rightarrow> browser \<Rightarrow> WebSource \<Rightarrow> trace
     \<Rightarrow> WebSource \<times> trace \<times> nat option \<times> error option" where
  "launchChrome1 e p b s tr =
     (let tr0 = tr @ [LaunchChrome] in
      if WebUrl p = [] \<and> url_Parse e \<noteq> None
      then (s, tr0, Some 0, map_option GoError (url_Parse e))
      else
        (let h = fresh tr0;
             s1 = s\<lparr>closeChrome := Some h\<rparr>;
             tr1 = tr0 @ [ChromeAlloc h]
         in case Run_navigationCtx (run1 b) of
              (t1, Some DeadlineExceeded) \<Rightarrow>
                (s1, tr1, Some t1, Some (ErrPageLoadFailed ''navigation timed out''))
            | (t1, Some (Msg m)) \<Rightarrow>
                (if HasPrefix m chromeFailedToStart
                 then (s1, tr1, Some t1, Some (ErrChromeFailedToStart m))
                 else (s1, tr1, Some t1, Some (ErrPageLoadFailed m)))
            | (t1, None) \<Rightarrow>
                (case took (run2 b) of
                   None \<Rightarrow> (s1, tr1, None, None)
                 | Some t2 \<Rightarrow>
                     (case failed (run2 b) of
                        Some m \<Rightarrow> (s1, tr1, Some (t1 + t2), Some (ErrPageLoadFailed m))
                      | None \<Rightarrow>
                          (if errString b \<noteq> []
                           then (s1, tr1, Some (t1 + t2), Some (ErrPageLoadFailed (errString b)))
                           else (s1, tr1, Some (t1 + t2), None))))))"

subsection \<open>launchChrome, second copy\<close>

text \<open>
  The second copy has no deadline of its own: it runs \<open>network.Enable\<close> and then the
  navigation on \<open>chromeCtx\<close>. An error of the navigation that does not start with
  \<open>chromeFailedToStart\<close> replaces \<open>errString\<close> by its message.
\<close>

definition launchChrome2 ::
  "env \<Rightarrow> PipelineConfig \<Rightarrow> browser \<Rightarrow> WebSource \<Rightarrow> trace
     \<Rightarrow> WebSource \<times> trace \<times> nat option \<times> error option" where
  "launchChrome2 e p b s tr =
     (let tr0 = tr @ [LaunchChrome] in
      if WebUrl p = [] \<and> url_Parse e \<noteq> None
      then (s, tr0, Some 0, map_option GoError (url_Parse e))
      else
        (let h = fresh tr0;
             s1 = s\<lparr>closeChrome := Some h\<rparr>;
             tr1 = tr0 @ [ChromeAlloc h]
         in case took (run1 b) of
              None \<Rightarrow> (s1, tr1, None, None)
            | Some t1 \<Rightarrow>
                (case failed (run1 b) of
                   Some m \<Rightarrow> (s1, tr1, Some t1, Some (GoError m))
                 | None \<Rightarrow>
                     (case took (run2 b) of
                        None \<Rightarrow> (s1, tr1, None, None)
                      | Some t2 \<Rightarrow>
                          (case failed (run2 b) of
                             Some m \<Rightarrow>
                               (if HasPrefix m chromeFailedToStart
                                then (s1, tr1, Some (t1 + t2), Some (ErrChromeFailedToStart m))
                                else if m \<noteq> []
                                then (s1, tr1, Some (t1 + t2), Some (ErrPageLoadFailed m))
                                else (s1, tr1, Some (t1 + t2), None))
                           | None \<Rightarrow>
                               (if errString b \<noteq> []
                                then (s1, tr1, Some (t1 + t2), Some (ErrPageLoadFailed (errString b)))
                                else (s1, tr1, Some (t1 + t2), None)))))))"

subsection \<open>One attempt: the goroutine and the select\<close>

text \<open>
  The supervisor waits for the result of \<open>launchChrome\<close> or for \<open>time.After(chromeTimeout)\<close>,
  whichever comes first. When both are ready at the same instant Go picks either; the
  model gives that instant to the timer. What \<open>launchChrome\<close> did to the controller before
  the timer fired (the handle it stored) stays done. The events of the target that arrive
  while a launch runs go to the console handler, which touches the two signals only; they
  are left to \<open>handleEvents\<close>.
\<close>

definition select_result :: "nat option \<Rightarrow> error option \<Rightarrow> error option" where
  "select_result fin res =
     (case fin of
        None \<Rightarrow> Some (ErrPageLoadFailed ''timed out'')
      | Some t \<Rightarrow> (if t < chromeTimeout then res else Some (ErrPageLoadFailed ''timed out'')))"

definition attempt1 ::
  "env \<Rightarrow> PipelineConfig \<Rightarrow> nat \<Rightarrow> WebSource \<Rightarrow> trace \<Rightarrow> WebSource \<times> trace \<times> error option" where
  "attempt1 e p k s tr =
     (case launchChrome1 e p (chrome e k) s tr of
        (s1, tr1, fin, res) \<Rightarrow> (s1, tr1, select_result fin res))"

definition attempt2 ::
  "env \<Rightarrow> PipelineConfig \<Rightarrow> nat \<Rightarrow> WebSource \<Rightarrow> trace \<Rightarrow> WebSource \<times> trace \<times> error option" where
  "attempt2 e p k s tr =
     (case launchChrome2 e p (chrome e k) s tr of
        (s1, tr1, fin, res) \<Rightarrow> (s1, tr1, select_result fin res))"

subsection \<open>NewWebSource, first copy\<close>

definition maxRetries1 :: nat where
  "maxRetries1 = 3"

definition retryDelay1 :: nat where
  "retryDelay1 = second * 5"

text \<open>
  The loop \<open>for attempt := 1; attempt <= maxRetries; attempt++\<close> and what follows it. The
  variable \<open>err\<close> lives outside the loop and keeps the error of the last attempt. The
  first copy does nothing to the browser handle of a failed attempt.
\<close>

function retryLoop1 ::
  "env \<Rightarrow> PipelineConfig \<Rightarrow> nat \<Rightarrow> WebSource \<Rightarrow> trace \<Rightarrow> error option
     \<Rightarrow> WebSource option \<times> error option \<times> trace" where
  "retryLoop1 e p attempt s tr err =
     (if attempt \<le> maxRetries1 then
        (case attempt1 e p attempt s tr of
           (s1, tr1, err1) \<Rightarrow>
             (if err1 = None then (Some s1, None, tr1)
              else retryLoop1 e p (attempt + 1) s1
                     (if attempt < maxRetries1 then tr1 @ [Sleep retryDelay1] else tr1) err1))
      else (case Close s tr of (s', tr') \<Rightarrow> (None, err, tr')))"
  by pat_completeness auto
termination
  by (relation "measure (\<lambda>(e, p, attempt, s, tr, err). maxRetries1 + 1 - attempt)") auto

text \<open>
  \<open>NewWebSource\<close> gives back the pair that the Go function returns (the controller or nil,
  the error or nil) and the trace of what it did.
\<close>

definition NewWebSource1 ::
  "env \<Rightarrow> PipelineConfig \<Rightarrow> WebSource option \<times> error option \<times> trace" where
  "NewWebSource1 e p0 =
     (let p = p0\<lparr>Display := 10 + rand_Intn e\<rparr>;
          s = \<lparr>pulseSink = [], xvfb = None, closeChrome = None,
               startRecording = (if AwaitStartSignal p then Some Open else None),
               endRecording = Some Open, info = EgressId p\<rparr>
      in case createPulseSink e p s [] of
           (s1, tr1, Some err) \<Rightarrow> (case Close s1 tr1 of (s', tr') \<Rightarrow> (None, Some err, tr'))
         | (s1, tr1, None) \<Rightarrow>
             (case launchXvfb e p s1 tr1 of
                (s2, tr2, Some err) \<Rightarrow> (case Close s2 tr2 of (s', tr') \<Rightarrow> (None, Some err, tr'))
              | (s2, tr2, None) \<Rightarrow> retryLoop1 e p 1 s2 tr2 None))"

subsection \<open>NewWebSource, second copy\<close>

definition maxRetries2 :: nat where
  "maxRetries2 = 5"

definition retryDelay2 :: nat where
  "retryDelay2 = second * 10"

text \<open>The second copy cancels the browser handle of a failed attempt and forgets it.\<close>

function retryLoop2 ::
  "env \<Rightarrow> PipelineConfig \<Rightarrow> nat \<Rightarrow> WebSource \<Rightarrow> trace \<Rightarrow> error option
     \<Rightarrow> WebSource option \<times> error option \<times> trace" where
  "retryLoop2 e p attempt s tr err =
     (if attempt \<le> maxRetries2 then
        (case attempt2 e p attempt s tr of
           (s1, tr1, err1) \<Rightarrow>
             (if err1 = None then (Some s1, None, tr1)
              else
                (let (s2, tr2) = (case closeChrome s1 of
                                    Some h \<Rightarrow> (s1\<lparr>closeChrome := None\<rparr>, tr1 @ [ChromeCancel h])
                                  | None \<Rightarrow> (s1, tr1))
                 in retryLoop2 e p (attempt + 1) s2
                      (if attempt < maxRetries2 then tr2 @ [Sleep retryDelay2] else tr2) err1)))
      else (case Close s tr of (s', tr') \<Rightarrow> (None, err, tr')))"
  by pat_completeness auto
termination
  by (relation "measure (\<lambda>(e, p, attempt, s, tr, err). maxRetries2 + 1 - attempt)") auto

definition NewWebSource2 ::
  "env \<Rightarrow> PipelineConfig \<Rightarrow> WebSource option \<times> error option \<times> trace" where
  "NewWebSource2 e p0 =
     (let p = p0\<lparr>Display := 10 + rand_Intn e\<rparr>;
          s = \<lparr>pulseSink = [], xvfb = None, closeChrome = None,
               startRecording = (if AwaitStartSignal p then Some Open else None),
               endRecording = Some Open, info = EgressId p\<rparr>
      in case createPulseSink e p s [] of
           (s1, tr1, Some err) \<Rightarrow> (case Close s1 tr1 of (s', tr') \<Rightarrow> (None, Some err, tr'))
         | (s1, tr1, None) \<Rightarrow>
             (case launchXvfb e p s1 tr1 of
                (s2, tr2, Some err) \<Rightarrow> (case Close s2 tr2 of (s', tr') \<Rightarrow> (None, Some err, tr'))
              | (s2, tr2, None) \<Rightarrow> retryLoop2 e p 1 s2 tr2 None))"

subsection \<open>Reading a trace\<close>

text \<open>
  The browser handles that are made and not canceled at the end of a trace, in the order
  they were made, and the largest number of them that existed at one time.
\<close>

fun live_step :: "nat list \<Rightarrow> event \<Rightarrow> nat list" where
  "live_step hs (ChromeAlloc h) = hs @ [h]"
| "live_step hs (ChromeCancel h) = removeAll h hs"
| "live_step hs _ = hs"

definition live_chrome :: "trace \<Rightarrow> nat list" where
  "live_chrome tr = foldl live_step [] tr"

fun peak_step :: "nat list \<times> nat \<Rightarrow> event \<Rightarrow> nat list \<times> nat" where
  "peak_step (hs, n) ev = (live_step hs ev, max n (length (live_step hs ev)))"

definition peak_chrome :: "trace \<Rightarrow> nat" where
  "peak_chrome tr = snd (foldl peak_step ([], 0) tr)"

fun isPulseLoad :: "event \<Rightarrow> bool" where
  "isPulseLoad (PulseLoad n) = True"
| "isPulseLoad _ = False"

fun isPulseUnload :: "event \<Rightarrow> bool" where
  "isPulseUnload (PulseUnload n) = True"
| "isPulseUnload _ = False"

fun isXvfbStart :: "event \<Rightarrow> bool" where
  "isXvfbStart (XvfbStart d) = True"
| "isXvfbStart _ = False"

fun isXvfbKill :: "event \<Rightarrow> bool" where
  "isXvfbKill (XvfbKill d) = True"
| "isXvfbKill _ = False"

fun isChromeCancel :: "event \<Rightarrow> bool" where
  "isChromeCancel (ChromeCancel h) = True"
| "isChromeCancel _ = False"

definition count :: "(event \<Rightarrow> bool) \<Rightarrow> trace \<Rightarrow> nat" where
  "count P tr = length (filter P tr)"

definition launches :: "trace \<Rightarrow> nat" where
  "launches tr = count (\<lambda>ev. ev = LaunchChrome) tr"

text \<open>
  The arguments of the console calls among a list of events, in order, and the number of
  rounds of the handler's loop at which a signal goes from not occurred to occurred.
\<close>

fun consoleArgsOf :: "cdp_event list \<Rightarrow> string option list" where
  "consoleArgsOf [] = []"
| "consoleArgsOf (EventConsoleAPICalled args # evs) = args @ consoleArgsOf evs"
| "consoleArgsOf (_ # evs) = consoleArgsOf evs"

fun flips :: "(WebSource \<Rightarrow> chan option) \<Rightarrow> WebSource \<Rightarrow> string option list \<Rightarrow> nat" where
  "flips sig s [] = 0"
| "flips sig s (a # as) =
     (case consoleArg s a of
        Inl p \<Rightarrow> 0
      | Inr s' \<Rightarrow> (if \<not> recv_ready (sig s) \<and> recv_ready (sig s') then 1 else 0) + flips sig s' as)"

section \<open>The uploader (pkg/pipeline/sink/uploader/uploader.go)\<close>

subsection \<open>Constants\<close>

definition millisecond :: nat where
  "millisecond = 1000000"

definition maxRetries :: nat where
  "maxRetries = 5"

definition minDelay :: nat where
  "minDelay = millisecond * 100"

definition maxDelay :: nat where
  "maxDelay = second * 5"

subsection \<open>The operating system as the uploader sees it\<close>

text \<open>
  The calls the uploader makes, and the file system they act on. A path leads to a
  directory entry: two spellings of one path, or a path through a symbolic link, lead to
  the same entry. An entry is present or not, and it stands for a file: two hard links
  are two entries of one file. A file has its bytes. Which entry a path leads to, and
  which file an entry stands for (or will stand for once it is created) do not change;
  the calls change which entries are present and what the files hold. Entries and files
  are named by strings. An oracle says which call fails for a reason of the system's own
  (permissions, a full disk) and with which message; then there are the number of bytes a
  failing \<open>io.Copy\<close> has written, the calls made so far and the messages logged so far.
\<close>

datatype sys_call =
    MkdirAll string
  | Open_file string
  | Create string
  | Copy string string
  | Stat string
  | Remove string

record os =
  entry :: "string \<Rightarrow> string"
  node :: "string \<Rightarrow> string"
  present :: "string \<Rightarrow> bool"
  data :: "string \<Rightarrow> string"
  fails :: "sys_call \<Rightarrow> string option"
  partial :: nat
  calls :: "sys_call list"
  logs :: "string list"

text \<open>The file a path leads to, what a path holds, and whether two paths lead to one file.\<close>

definition file_of :: "os \<Rightarrow> string \<Rightarrow> string" where
  "file_of w p = node w (entry w p)"

definition files :: "os \<Rightarrow> string \<Rightarrow> string option" where
  "files w p = (if present w (entry w p) then Some (data w (file_of w p)) else None)"

definition same_file :: "os \<Rightarrow> string \<Rightarrow> string \<Rightarrow> bool" where
  "same_file w p q = (file_of w p = file_of w q)"

definition called :: "sys_call \<Rightarrow> os \<Rightarrow> os" where
  "called c w = w\<lparr>calls := calls w @ [c]\<rparr>"

definition Debugw :: "string \<Rightarrow> os \<Rightarrow> os" where
  "Debugw m w = w\<lparr>logs := logs w @ [m]\<rparr>"

definition os_MkdirAll :: "os \<Rightarrow> string \<Rightarrow> os \<times> string option" where
  "os_MkdirAll w d = (called (MkdirAll d) w, fails w (MkdirAll d))"

definition os_Stat :: "os \<Rightarrow> string \<Rightarrow> os \<times> (string + int)" where
  "os_Stat w f =
     (case fails w (Stat f) of
        Some m \<Rightarrow> (called (Stat f) w, Inl m)
      | None \<Rightarrow>
          (case files w f of
             None \<Rightarrow> (called (Stat f) w, Inl ''no such file or directory'')
           | Some c \<Rightarrow> (called (Stat f) w, Inr (int (length c)))))"

text \<open>\<open>os.Remove\<close> takes the entry away; the file stays for its other entries.\<close>

definition os_Remove :: "os \<Rightarrow> string \<Rightarrow> os \<times> string option" where
  "os_Remove w f =
     (case fails w (Remove f) of
        Some m \<Rightarrow> (called (Remove f) w, Some m)
      | None \<Rightarrow>
          (case files w f of
             None \<Rightarrow> (called (Remove f) w, Some ''no such file or directory'')
           | Some c \<Rightarrow>
               ((called (Remove f) w)\<lparr>present := (present w)(entry w f := False)\<rparr>, None)))"

text \<open>
  The error with which the system refuses one of the calls of an upload, if it does: the
  oracle's, or that of a local file that is not there.
\<close>

definition refused :: "os \<Rightarrow> sys_call \<Rightarrow> string option" where
  "refused w c =
     (case fails w c of
        Some m \<Rightarrow> Some m
      | None \<Rightarrow>
          (case c of
             Open_file f \<Rightarrow>
               (if files w f = None then Some ''no such file or directory'' else None)
           | _ \<Rightarrow> None))"

subsection \<open>path.Join and path.Dir on rooted paths\<close>

text \<open>
  The uploader joins onto the rooted directory \<open>/out/recordings\<close>, so only rooted paths
  are cleaned: empty and \<open>.\<close> elements go, a \<open>..\<close> element goes together with the element
  before it, and at the root it goes alone.
\<close>

fun splitOn :: "char \<Rightarrow> string \<Rightarrow> string list" where
  "splitOn c [] = [[]]"
| "splitOn c (x # xs) =
     (if x = c then [] # splitOn c xs
      else (case splitOn c xs of [] \<Rightarrow> [[x]] | w # ws \<Rightarrow> (x # w) # ws))"

definition clean_step :: "string list \<Rightarrow> string \<Rightarrow> string list" where
  "clean_step st c =
     (if c = [] \<or> c = ''.'' then st else if c = ''..'' then butlast st else st @ [c])"

definition Clean_rooted :: "string \<Rightarrow> string" where
  "Clean_rooted p =
     (let st = foldl clean_step [] (splitOn CHR ''/'' p)
      in if st = [] then ''/'' else concat (map (\<lambda>c. ''/'' @ c) st))"

definition path_Join :: "string \<Rightarrow> string \<Rightarrow> string" where
  "path_Join d f = Clean_rooted (d @ ''/'' @ f)"

definition path_Dir :: "string \<Rightarrow> string" where
  "path_Dir p = Clean_rooted (rev (dropWhile (\<lambda>c. c \<noteq> CHR ''/'') (rev p)))"

subsection \<open>copyFile\<close>

text \<open>
  \<open>os.Create\<close> makes the entry of the destination present and truncates its file before
  \<open>io.Copy\<close> reads the source, so the bytes copied are those the file opened as source
  holds after the truncation: none, when source and destination are one file.
\<close>

definition copyFile :: "os \<Rightarrow> string \<Rightarrow> string \<Rightarrow> os \<times> string option" where
  "copyFile w src dst =
     (let w1 = called (Open_file src) w in
      case fails w (Open_file src) of
        Some m \<Rightarrow> (w1, Some m)
      | None \<Rightarrow>
          (case files w src of
             None \<Rightarrow> (w1, Some ''no such file or directory'')
           | Some c0 \<Rightarrow>
               (let w2 = called (Create dst) w1 in
                case fails w (Create dst) of
                  Some m \<Rightarrow> (w2, Some m)
                | None \<Rightarrow>
                    (let w3 = w2\<lparr>present := (present w2)(entry w2 dst := True),
                                  data := (data w2)(file_of w2 dst := [])\<rparr>;
                         c = data w3 (file_of w3 src);
                         w4 = called (Copy src dst) w3
                     in case fails w (Copy src dst) of
                          Some m \<Rightarrow>
                            (w4\<lparr>data := (data w4)(file_of w4 dst := take (partial w) c)\<rparr>, Some m)
                        | None \<Rightarrow> (w4\<lparr>data := (data w4)(file_of w4 dst := c)\<rparr>, None)))))"

subsection \<open>The two uploaders\<close>

text \<open>
  The result of an upload is the triple the Go method returns: the location, the size
  and the error (\<open>None\<close> is nil). The method \<open>upload\<close> of the embedded backend is a
  function to such a triple. The field \<open>monitor\<close>, which nothing in the file reads, is
  left out.
\<close>

type_synonym upload_result = "string \<times> int \<times> string option"

record remoteUploader =
  uploader :: "string \<Rightarrow> string \<Rightarrow> string \<Rightarrow> upload_result"
  backup :: string

definition outDir :: string where
  "outDir = ''/out/recordings''"

definition Upload_remote ::
  "remoteUploader \<Rightarrow> os \<Rightarrow> string \<Rightarrow> string \<Rightarrow> string \<Rightarrow> bool \<Rightarrow> string
     \<Rightarrow> os \<times> upload_result" where
  "Upload_remote u w localFilepath storageFilepath outputType deleteAfterUpload fileType =
     (let outFilepath = path_Join outDir storageFilepath in
      case os_MkdirAll w (path_Dir outFilepath) of
        (w1, Some err) \<Rightarrow> (Debugw ''failed to create output directory'' w1, [], 0, Some err)
      | (w1, None) \<Rightarrow>
          (case copyFile w1 localFilepath outFilepath of
             (w2, Some err) \<Rightarrow>
               (Debugw ''failed to copy file to output location'' w2, [], 0, Some err)
           | (w2, None) \<Rightarrow>
               (case os_Stat w2 outFilepath of
                  (w3, Inl err) \<Rightarrow> (Debugw ''failed to get file info'' w3, [], 0, Some err)
                | (w3, Inr sz) \<Rightarrow>
                    (let w4 = (if deleteAfterUpload
                               then (case os_Remove w3 localFilepath of
                                       (w', Some err) \<Rightarrow> Debugw ''failed to delete original file'' w'
                                     | (w', None) \<Rightarrow> w')
                               else w3)
                     in (w4, outFilepath, sz, None)))))"

text \<open>The calls of one upload, in the order of the source.\<close>

definition upload_calls :: "string \<Rightarrow> string \<Rightarrow> sys_call list" where
  "upload_calls localFilepath storageFilepath =
     (let outFilepath = path_Join outDir storageFilepath in
      [MkdirAll (path_Dir outFilepath), Open_file localFilepath, Create outFilepath,
       Copy localFilepath outFilepath, Stat outFilepath, Remove localFilepath])"

definition Upload_local ::
  "os \<Rightarrow> string \<Rightarrow> string \<Rightarrow> string \<Rightarrow> bool \<Rightarrow> string \<Rightarrow> os \<times> upload_result" where
  "Upload_local w localFilepath storageFilepath outputType deleteAfterUpload fileType =
     (case os_Stat w localFilepath of
        (w1, Inl err) \<Rightarrow> (w1, [], 0, Some err)
      | (w1, Inr sz) \<Rightarrow> (w1, localFilepath, sz, None))"

text \<open>
  \<open>New\<close> picks the uploader by the type of the configuration. The constructors of the
  remote backends (\<open>newS3Uploader\<close> and the others) are in files that are not among the
  sources; \<open>mk\<close> stands for them.
\<close>

datatype UploadConfig =
    EgressS3Upload
  | S3Upload
  | GCPUpload
  | AzureBlobUpload
  | AliOSSUpload
  | NoUpload

datatype Uploader = Remote remoteUploader | Local

definition New ::
  "(UploadConfig \<Rightarrow> string + (string \<Rightarrow> string \<Rightarrow> string \<Rightarrow> upload_result))
     \<Rightarrow> UploadConfig \<Rightarrow> string \<Rightarrow> string + Uploader" where
  "New mk conf bk =
     (case conf of
        NoUpload \<Rightarrow> Inr Local
      | _ \<Rightarrow> (case mk conf of
                Inl err \<Rightarrow> Inl err
              | Inr b \<Rightarrow> Inr (Remote \<lparr>uploader = b, backup = bk\<rparr>)))"

fun Upload ::
  "Uploader \<Rightarrow> os \<Rightarrow> string \<Rightarrow> string \<Rightarrow> string \<Rightarrow> bool \<Rightarrow> string \<Rightarrow> os \<times> upload_result" where
  "Upload (Remote u) w l st ot d ft = Upload_remote u w l st ot d ft"
| "Upload Local w l st ot d ft = Upload_local w l st ot d ft"

section \<open>What the supervisor sees at an attempt\<close>

text \<open>
  The error the select of attempt \<open>k\<close> leaves in \<open>err\<close> (\<open>None\<close>: the launch succeeded). It
  depends on the configuration, the environment and the number of the attempt only, so it
  is read off a controller without resources and an empty trace.
\<close>

definition blank :: WebSource where
  "blank = \<lparr>pulseSink = [], xvfb = None, closeChrome = None,
            startRecording = None, endRecording = Some Open, info = []\<rparr>"

definition seen1 :: "env \<Rightarrow> PipelineConfig \<Rightarrow> nat \<Rightarrow> error option" where
  "seen1 e p k = snd (snd (attempt1 e p k blank []))"

definition seen2 :: "env \<Rightarrow> PipelineConfig \<Rightarrow> nat \<Rightarrow> error option" where
  "seen2 e p k = snd (snd (attempt2 e p k blank []))"

section \<open>Concrete inputs\<close>

text \<open>A controller that holds all three resources, without a gated start.\<close>

definition ws0 :: WebSource where
  "ws0 = \<lparr>pulseSink = ''23'', xvfb = Some 99, closeChrome = Some 0,
          startRecording = None, endRecording = Some Open, info = ''EG_1''\<rparr>"

text \<open>A controller with a gated start whose two signals have occurred.\<close>

definition ws_done :: WebSource where
  "ws_done = \<lparr>pulseSink = ''23'', xvfb = Some 99, closeChrome = Some 0,
              startRecording = Some Closed, endRecording = Some Closed, info = ''EG_1''\<rparr>"

text \<open>A page that logs the start sentinel twice, a number, and then the end sentinel.\<close>

definition evs0 :: "cdp_event list" where
  "evs0 = [EventConsoleAPICalled [Some ''START_RECORDING''], EventResponseReceived,
           EventConsoleAPICalled [Some ''42'', None, Some ''START_RECORDING''],
           EventConsoleAPICalled [Some ''END_RECORDING'']]"

text \<open>A console call with the start sentinel and another word.\<close>

definition evs1 :: "cdp_event list" where
  "evs1 = [EventConsoleAPICalled [Some ''START_RECORDING'', Some ''hello'']]"

text \<open>A configuration with a page address and no gated start.\<close>

definition cfg0 :: PipelineConfig where
  "cfg0 = \<lparr>AwaitStartSignal = False, WebUrl = ''https://example.org/room'', BaseUrl = [],
           Insecure = False, EgressId = ''EG_1'', Display = 0\<rparr>"

text \<open>
  Browsers: one that loads the page in two seconds, one whose page shows an error, one
  that never answers, and one whose navigation takes 50 seconds and then succeeds.
\<close>

definition page_ok :: browser where
  "page_ok = \<lparr>run1 = \<lparr>took = Some second, failed = None\<rparr>,
              run2 = \<lparr>took = Some second, failed = None\<rparr>, errString = []\<rparr>"

definition page_error :: browser where
  "page_error = \<lparr>run1 = \<lparr>took = Some second, failed = None\<rparr>,
                 run2 = \<lparr>took = Some second, failed = None\<rparr>, errString = ''room not found''\<rparr>"

definition page_hangs :: browser where
  "page_hangs = \<lparr>run1 = \<lparr>took = None, failed = None\<rparr>,
                 run2 = \<lparr>took = None, failed = None\<rparr>, errString = []\<rparr>"

definition page_slow :: browser where
  "page_slow = \<lparr>run1 = \<lparr>took = Some (50 * second), failed = None\<rparr>,
                run2 = \<lparr>took = Some second, failed = None\<rparr>, errString = []\<rparr>"

text \<open>
  Environments in which the sink (module 23) and the display (number 99) come up: the
  browser always loads, always shows an error, never answers, is always slow, or shows
  an error at the first two attempts and loads at the third.
\<close>

definition env_of :: "(nat \<Rightarrow> browser) \<Rightarrow> env" where
  "env_of f = \<lparr>rand_Intn = 89, pactl = Inr (''23'' @ [CHR 0x0A]), xvfb_Start = None,
               url_Parse = None, chrome = f\<rparr>"

definition env_ok :: env where
  "env_ok = env_of (\<lambda>k. page_ok)"

definition env_fail :: env where
  "env_fail = env_of (\<lambda>k. page_error)"

definition env_hang :: env where
  "env_hang = env_of (\<lambda>k. page_hangs)"

definition env_slow :: env where
  "env_slow = env_of (\<lambda>k. page_slow)"

text \<open>
  An environment in which \<open>pactl\<close> succeeds and prints nothing, and the page always shows
  an error.
\<close>

definition env_mute :: env where
  "env_mute = \<lparr>rand_Intn = 89, pactl = Inr [], xvfb_Start = None, url_Parse = None,
               chrome = (\<lambda>k. page_error)\<rparr>"

definition env_flaky :: env where
  "env_flaky = env_of (\<lambda>k. if k < 3 then page_error else page_ok)"

text \<open>
  An uploader configured for S3 whose backend would store under \<open>s3://bucket/\<close>, and
  three states of a disk on which every path is its own entry and every entry its own
  file: without the local file, with it, and with it but not removable.
\<close>

definition u_s3 :: remoteUploader where
  "u_s3 = \<lparr>uploader = (\<lambda>l st ot. (''s3://bucket/'' @ st, 6, None)), backup = []\<rparr>"

definition mk_s3 :: "UploadConfig \<Rightarrow> string + (string \<Rightarrow> string \<Rightarrow> string \<Rightarrow> upload_result)" where
  "mk_s3 c = Inr (uploader u_s3)"

definition w_empty :: os where
  "w_empty = \<lparr>entry = (\<lambda>p. p), node = (\<lambda>e. e), present = (\<lambda>e. False), data = (\<lambda>f. []),
              fails = (\<lambda>c. None), partial = 0, calls = [], logs = []\<rparr>"

definition w_file :: os where
  "w_file = \<lparr>entry = (\<lambda>p. p), node = (\<lambda>e. e), present = (\<lambda>e. e = ''/tmp/a.mp4''),
             data = (\<lambda>f. if f = ''/tmp/a.mp4'' then ''abcdef'' else []),
             fails = (\<lambda>c. None), partial = 0, calls = [], logs = []\<rparr>"

definition w_locked :: os where
  "w_locked = \<lparr>entry = (\<lambda>p. p), node = (\<lambda>e. e), present = (\<lambda>e. e = ''/tmp/a.mp4''),
               data = (\<lambda>f. if f = ''/tmp/a.mp4'' then ''abcdef'' else []),
               fails = (\<lambda>c. if c = Remove ''/tmp/a.mp4''
                              then Some ''operation not permitted'' else None),
               partial = 0, calls = [], logs = []\<rparr>"

text \<open>
  A disk on which every spelling of a rooted path leads to the entry of the cleaned path,
  and which holds a recording under \<open>/out/recordings\<close> already.
\<close>

definition w_alias :: os where
  "w_alias = \<lparr>entry = Clean_rooted, node = (\<lambda>e. e),
              present = (\<lambda>e. e = ''/out/recordings/a.mp4''),
              data = (\<lambda>f. if f = ''/out/recordings/a.mp4'' then ''abcdef'' else []),
              fails = (\<lambda>c. None), partial = 0, calls = [], logs = []\<rparr>"

section \<open>The console handler: one-shot signals\<close>

lemma logs_distinct: "startRecordingLog \<noteq> endRecordingLog"
  by (simp add: startRecordingLog_def endRecordingLog_def)

lemma consoleArg_cases:
  "consoleArg s a = Inr s
   \<or> (a = Some startRecordingLog \<and> startRecording s = Some Open
        \<and> consoleArg s a = Inr (s\<lparr>startRecording := Some Closed\<rparr>))
   \<or> (a = Some endRecordingLog \<and> endRecording s = Some Open
        \<and> consoleArg s a = Inr (s\<lparr>endRecording := Some Closed\<rparr>))"
proof (cases a)
  case None
  then show ?thesis by simp
next
  case (Some v)
  show ?thesis
  proof (cases "startRecording s" rule: recv_ready.cases)
    case 1
    then show ?thesis using Some
      by (cases "endRecording s" rule: recv_ready.cases) (simp_all add: startRecordingLog_def endRecordingLog_def)
  next
    case 2
    then show ?thesis using Some
      by (cases "endRecording s" rule: recv_ready.cases) (simp_all add: startRecordingLog_def endRecordingLog_def)
  next
    case 3
    then show ?thesis using Some
      by (cases "endRecording s" rule: recv_ready.cases) (simp_all add: startRecordingLog_def endRecordingLog_def)
  qed
qed

lemma consoleArg_total: "\<exists>s'. consoleArg s a = Inr s'"
  using consoleArg_cases [of s a] by auto

lemma consoleArg_mono:
  assumes "consoleArg s a = Inr s'"
  shows "(recv_ready (startRecording s) \<longrightarrow> recv_ready (startRecording s'))
       \<and> (recv_ready (endRecording s) \<longrightarrow> recv_ready (endRecording s'))"
  using consoleArg_cases [of s a] assms by auto

lemma consoleArgs_mono:
  "\<exists>s'. consoleArgs s as = Inr s'
     \<and> (recv_ready (startRecording s) \<longrightarrow> recv_ready (startRecording s'))
     \<and> (recv_ready (endRecording s) \<longrightarrow> recv_ready (endRecording s'))"
proof (induction as arbitrary: s)
  case Nil
  then show ?case by simp
next
  case (Cons a as)
  obtain s1 where s1: "consoleArg s a = Inr s1" using consoleArg_total by blast
  from Cons.IH [of s1] consoleArg_mono [OF s1] s1 show ?case by auto
qed

lemma consoleArgs_append:
  "consoleArgs s (as @ bs) = (case consoleArgs s as of Inl p \<Rightarrow> Inl p | Inr s' \<Rightarrow> consoleArgs s' bs)"
  by (induction as arbitrary: s) (auto split: sum.splits)

lemma handleEvents_consoleArgsOf: "handleEvents s evs = consoleArgs s (consoleArgsOf evs)"
proof (induction evs arbitrary: s)
  case Nil
  then show ?case by simp
next
  case (Cons ev evs)
  then show ?case
    by (cases ev) (auto simp: consoleArgs_append split: sum.splits)
qed

lemma flips_start_ready: "recv_ready (startRecording s) \<Longrightarrow> flips startRecording s as = 0"
proof (induction as arbitrary: s)
  case Nil
  then show ?case by simp
next
  case (Cons a as)
  obtain s1 where s1: "consoleArg s a = Inr s1" using consoleArg_total by blast
  with Cons consoleArg_mono [OF s1] show ?case by simp
qed

lemma flips_end_ready: "recv_ready (endRecording s) \<Longrightarrow> flips endRecording s as = 0"
proof (induction as arbitrary: s)
  case Nil
  then show ?case by simp
next
  case (Cons a as)
  obtain s1 where s1: "consoleArg s a = Inr s1" using consoleArg_total by blast
  with Cons consoleArg_mono [OF s1] show ?case by simp
qed

lemma flips_start_le: "flips startRecording s as \<le> 1"
proof (induction as arbitrary: s)
  case Nil
  then show ?case by simp
next
  case (Cons a as)
  obtain s1 where s1: "consoleArg s a = Inr s1" using consoleArg_total by blast
  show ?case
  proof (cases "recv_ready (startRecording s1)")
    case True
    then show ?thesis using s1 flips_start_ready [of s1 as] by simp
  next
    case False
    then show ?thesis using s1 Cons.IH [of s1] by simp
  qed
qed

lemma flips_end_le: "flips endRecording s as \<le> 1"
proof (induction as arbitrary: s)
  case Nil
  then show ?case by simp
next
  case (Cons a as)
  obtain s1 where s1: "consoleArg s a = Inr s1" using consoleArg_total by blast
  show ?case
  proof (cases "recv_ready (endRecording s1)")
    case True
    then show ?thesis using s1 flips_end_ready [of s1 as] by simp
  next
    case False
    then show ?thesis using s1 Cons.IH [of s1] by simp
  qed
qed

text \<open>With a nil start channel the loop over the arguments can change the end signal only.\<close>

lemma consoleArgs_start_nil:
  assumes "startRecording s = None"
  shows "\<exists>s'. consoleArgs s as = Inr s'
              \<and> startRecording s' = None
              \<and> s' = s\<lparr>endRecording := endRecording s'\<rparr>
              \<and> (Some endRecordingLog \<notin> set as \<longrightarrow> s' = s)"
  using assms
proof (induction as arbitrary: s)
  case Nil
  then show ?case by simp
next
  case (Cons a as)
  from consoleArg_cases [of s a] Cons.prems
  consider "consoleArg s a = Inr s"
    | "a = Some endRecordingLog" "consoleArg s a = Inr (s\<lparr>endRecording := Some Closed\<rparr>)"
    by auto
  then show ?case
  proof cases
    case 1
    with Cons.IH [of s] Cons.prems show ?thesis by auto
  next
    case 2
    from Cons.IH [of "s\<lparr>endRecording := Some Closed\<rparr>"] Cons.prems
    obtain s' where s': "consoleArgs (s\<lparr>endRecording := Some Closed\<rparr>) as = Inr s'"
      "startRecording s' = None"
      "s' = s\<lparr>endRecording := Some Closed\<rparr>\<lparr>endRecording := endRecording s'\<rparr>"
      by auto
    from s'(3) have "s' = s\<lparr>endRecording := endRecording s'\<rparr>" by simp
    with 2 s' show ?thesis by simp
  qed
qed

text \<open>
  Claim C5. For every controller and every sequence of events of the target, the handler
  never panics, a signal that has occurred stays occurred (so the end sentinel after the
  start sentinel leaves the start signal occurred), each of the two signals goes from not
  occurred to occurred at no more than one round of the handler, and a sentinel whose
  signal has already occurred leaves the controller as it is.
\<close>

theorem signals_one_shot:
  "(\<exists>s'. handleEvents s evs = Inr s'
      \<and> (recv_ready (StartRecording s) \<longrightarrow> recv_ready (StartRecording s'))
      \<and> (recv_ready (EndRecording s) \<longrightarrow> recv_ready (EndRecording s')))
   \<and> flips startRecording s (consoleArgsOf evs) \<le> 1
   \<and> flips endRecording s (consoleArgsOf evs) \<le> 1
   \<and> (recv_ready (StartRecording s) \<longrightarrow> consoleArg s (Some startRecordingLog) = Inr s)
   \<and> (recv_ready (EndRecording s) \<longrightarrow> consoleArg s (Some endRecordingLog) = Inr s)"
proof -
  have a: "\<exists>s'. handleEvents s evs = Inr s'
      \<and> (recv_ready (StartRecording s) \<longrightarrow> recv_ready (StartRecording s'))
      \<and> (recv_ready (EndRecording s) \<longrightarrow> recv_ready (EndRecording s'))"
    using consoleArgs_mono [of s "consoleArgsOf evs"]
    by (simp add: handleEvents_consoleArgsOf StartRecording_def EndRecording_def)
  have b: "recv_ready (StartRecording s) \<longrightarrow> consoleArg s (Some startRecordingLog) = Inr s"
    using consoleArg_cases [of s "Some startRecordingLog"] logs_distinct by (auto simp: StartRecording_def)
  have c: "recv_ready (EndRecording s) \<longrightarrow> consoleArg s (Some endRecordingLog) = Inr s"
    using consoleArg_cases [of s "Some endRecordingLog"] logs_distinct by (auto simp: EndRecording_def)
  from a b c flips_start_le flips_end_le show ?thesis by blast
qed

theorem signals_one_shot_witness:
  "recv_ready (StartRecording ws_done) \<and> recv_ready (EndRecording ws_done)
   \<and> handleEvents ws_done evs0 = Inr ws_done
   \<and> consoleArg ws_done (Some startRecordingLog) = Inr ws_done
   \<and> consoleArg ws_done (Some endRecordingLog) = Inr ws_done
   \<and> flips startRecording ws_done (consoleArgsOf evs0) \<le> 1"
  using signals_one_shot [of ws_done evs0]
  by (simp add: ws_done_def evs0_def StartRecording_def EndRecording_def
      startRecordingLog_def endRecordingLog_def)

text \<open>
  Claim C9. When the start channel is nil, the start sentinel leaves the controller as it
  is and panics nothing; over any sequence of events the handler does not panic, the start
  channel stays nil, nothing but the field of the end signal can differ afterwards, and
  without an end sentinel among the console arguments the controller is unchanged.
\<close>

theorem start_sentinel_noop_without_gating:
  assumes "startRecording s = None"
  shows "consoleArg s (Some startRecordingLog) = Inr s
       \<and> (\<exists>s'. handleEvents s evs = Inr s'
              \<and> startRecording s' = None
              \<and> s' = s\<lparr>endRecording := endRecording s'\<rparr>
              \<and> (Some endRecordingLog \<notin> set (consoleArgsOf evs) \<longrightarrow> s' = s))"
proof -
  have one: "consoleArg s (Some startRecordingLog) = Inr s"
    using assms by simp
  from one consoleArgs_start_nil [OF assms, of "consoleArgsOf evs"] show ?thesis
    by (simp add: handleEvents_consoleArgsOf)
qed

theorem start_sentinel_noop_without_gating_witness:
  "startRecording ws0 = None
   \<and> consoleArg ws0 (Some startRecordingLog) = Inr ws0
   \<and> handleEvents ws0 evs1 = Inr ws0"
proof -
  have h: "startRecording ws0 = None" by (simp add: ws0_def)
  have n: "Some endRecordingLog \<notin> set (consoleArgsOf evs1)"
    by (simp add: evs1_def endRecordingLog_def)
  from start_sentinel_noop_without_gating [OF h, of evs1] n h
  show ?thesis by auto
qed

text \<open>
  The scenario of the specification: with a gated start, the start sentinel seen twice
  and then the end sentinel leave both signals occurred.
\<close>

lemma gated_scenario:
  "handleEvents (ws0\<lparr>startRecording := Some Open\<rparr>) evs0 = Inr ws_done"
  by (simp add: ws0_def ws_done_def evs0_def startRecordingLog_def endRecordingLog_def)

section \<open>Close\<close>

lemma Close_fields:
  "fst (Close s tr) = s\<lparr>closeChrome := None, xvfb := None\<rparr>"
  by (simp add: Close_def split: option.splits)

lemma Close_trace:
  "snd (Close s tr) =
     tr @ (case closeChrome s of Some h \<Rightarrow> [ChromeCancel h] | None \<Rightarrow> [])
        @ (case xvfb s of Some x \<Rightarrow> [XvfbKill x, XvfbWait x] | None \<Rightarrow> [])
        @ (if pulseSink s \<noteq> [] then [PulseUnload (pulseSink s)] else [])"
  by (simp add: Close_def split: option.splits)

text \<open>
  A second \<open>Close\<close> finds no browser handle and no display, and finds the name of the sink
  where the first one left it.
\<close>

lemma Close_again:
  "Close (fst (Close s tr)) tr' =
     (fst (Close s tr), if pulseSink s \<noteq> [] then tr' @ [PulseUnload (pulseSink s)] else tr')"
  by (simp add: Close_def split: option.splits)

text \<open>
  Claim C4, at a controller that holds all three resources: the second \<open>Close\<close> leaves the
  controller as the first left it, cancels no browser and kills no display, but it asks
  for the unload of the audio sink a second time.
\<close>

theorem Close_twice_unloads_sink_twice:
  "Close ws0 [] =
     (ws0\<lparr>closeChrome := None, xvfb := None\<rparr>,
      [ChromeCancel 0, XvfbKill 99, XvfbWait 99, PulseUnload ''23''])
   \<and> Close (ws0\<lparr>closeChrome := None, xvfb := None\<rparr>)
        [ChromeCancel 0, XvfbKill 99, XvfbWait 99, PulseUnload ''23''] =
     (ws0\<lparr>closeChrome := None, xvfb := None\<rparr>,
      [ChromeCancel 0, XvfbKill 99, XvfbWait 99, PulseUnload ''23'', PulseUnload ''23''])
   \<and> count isPulseUnload
        [ChromeCancel 0, XvfbKill 99, XvfbWait 99, PulseUnload ''23'', PulseUnload ''23''] = 2"
  by (simp add: Close_def ws0_def count_def)

section \<open>Traces\<close>

lemma count_append: "count P (tr @ xs) = count P tr + count P xs"
  by (simp add: count_def)

lemma launches_append: "launches (tr @ xs) = launches tr + launches xs"
  by (simp add: launches_def count_def)

lemma live_append: "live_chrome (tr @ xs) = foldl live_step (live_chrome tr) xs"
  by (simp add: live_chrome_def)

lemma peak_fold: "foldl peak_step (hs, n) tr = (foldl live_step hs tr, snd (foldl peak_step (hs, n) tr))"
  by (induction tr arbitrary: hs n) simp_all

lemma peak_append:
  "peak_chrome (tr @ xs) = snd (foldl peak_step (live_chrome tr, peak_chrome tr) xs)"
proof -
  have "foldl peak_step ([], 0) tr = (live_chrome tr, peak_chrome tr)"
    using peak_fold [of "[]" 0 tr] by (simp add: live_chrome_def peak_chrome_def)
  then show ?thesis by (simp add: peak_chrome_def)
qed

lemma closeChrome_None_upd: "closeChrome s = None \<Longrightarrow> s\<lparr>closeChrome := None\<rparr> = s"
  by (cases s) simp

lemma closeChrome_upd_idem: "s\<lparr>closeChrome := closeChrome s\<rparr> = s"
  by (cases s) simp

section \<open>One attempt\<close>

text \<open>
  An attempt enters \<open>launchChrome\<close> and either stops at the address of the page, with an
  error and no browser handle, or stores a new browser handle in the controller.
\<close>

lemma attempt1_shape:
  "(attempt1 e p k s tr = (s, tr @ [LaunchChrome], seen1 e p k) \<and> seen1 e p k \<noteq> None)
   \<or> attempt1 e p k s tr =
        (s\<lparr>closeChrome := Some (fresh (tr @ [LaunchChrome]))\<rparr>,
         tr @ [LaunchChrome, ChromeAlloc (fresh (tr @ [LaunchChrome]))], seen1 e p k)"
  by (auto simp: attempt1_def seen1_def launchChrome1_def select_result_def Let_def chromeTimeout_def second_def
      split: option.splits prod.splits runerr.splits)

lemma attempt2_shape:
  "(attempt2 e p k s tr = (s, tr @ [LaunchChrome], seen2 e p k) \<and> seen2 e p k \<noteq> None)
   \<or> attempt2 e p k s tr =
        (s\<lparr>closeChrome := Some (fresh (tr @ [LaunchChrome]))\<rparr>,
         tr @ [LaunchChrome, ChromeAlloc (fresh (tr @ [LaunchChrome]))], seen2 e p k)"
  by (auto simp: attempt2_def seen2_def launchChrome2_def select_result_def Let_def chromeTimeout_def second_def
      split: option.splits prod.splits)

lemma seen1_Display: "seen1 e (p\<lparr>Display := d\<rparr>) k = seen1 e p k"
  by (simp add: seen1_def attempt1_def launchChrome1_def)

lemma seen2_Display: "seen2 e (p\<lparr>Display := d\<rparr>) k = seen2 e p k"
  by (simp add: seen2_def attempt2_def launchChrome2_def)

text \<open>An attempt that does not return before the timer is a timed out page load.\<close>

lemma select_result_timeout:
  assumes "fin = None \<or> (\<exists>t. fin = Some t \<and> chromeTimeout \<le> t)"
  shows "select_result fin res = Some (ErrPageLoadFailed ''timed out'')"
  using assms by (auto simp: select_result_def)

text \<open>
  In the first copy the deadline of the navigation comes after the timer of the
  supervisor: whenever the navigation ends by its deadline, the supervisor has already
  given the attempt up as timed out.
\<close>

lemma navigation_deadline_never_seen:
  assumes "Run_navigationCtx (run1 (chrome e k)) = (t, Some DeadlineExceeded)"
    "\<not> (WebUrl p = [] \<and> url_Parse e \<noteq> None)"
  shows "launchChrome1 e p (chrome e k) s tr =
           (s\<lparr>closeChrome := Some (fresh (tr @ [LaunchChrome]))\<rparr>,
            tr @ [LaunchChrome, ChromeAlloc (fresh (tr @ [LaunchChrome]))],
            Some navigationTimeout, Some (ErrPageLoadFailed ''navigation timed out''))
         \<and> snd (snd (attempt1 e p k s tr)) = Some (ErrPageLoadFailed ''timed out'')"
proof -
  from assms(1) have t: "t = navigationTimeout"
    by (auto simp: Run_navigationCtx_def split: option.splits if_splits)
  then show ?thesis
    using assms
    by (auto simp: attempt1_def launchChrome1_def select_result_def navigationTimeout_def
        chromeTimeout_def second_def Let_def)
qed

section \<open>Retrying the launch\<close>

declare retryLoop1.simps [simp del] retryLoop2.simps [simp del]

subsection \<open>Second copy\<close>

text \<open>One failed round of the second loop.\<close>

lemma retryLoop2_fail_step:
  assumes "attempt \<le> maxRetries2" "closeChrome s = None" "seen2 e p attempt \<noteq> None"
  shows "\<exists>mid. retryLoop2 e p attempt s tr err
                 = retryLoop2 e p (attempt + 1) s (tr @ mid) (seen2 e p attempt)
           \<and> launches mid = 1 \<and> count isXvfbKill mid = 0 \<and> count isPulseUnload mid = 0
           \<and> count isXvfbStart mid = 0 \<and> count isPulseLoad mid = 0
           \<and> foldl live_step [] mid = []
           \<and> (\<forall>n\<le>1. snd (foldl peak_step ([], n) mid) \<le> 1)"
proof -
  let ?h = "fresh (tr @ [LaunchChrome])"
  let ?slp = "if attempt < maxRetries2 then [Sleep retryDelay2] else []"
  from attempt2_shape [of e p attempt s tr]
  show ?thesis
  proof
    assume a: "attempt2 e p attempt s tr = (s, tr @ [LaunchChrome], seen2 e p attempt)
               \<and> seen2 e p attempt \<noteq> None"
    have "retryLoop2 e p attempt s tr err
          = retryLoop2 e p (attempt + 1) s (tr @ ([LaunchChrome] @ ?slp)) (seen2 e p attempt)"
      using assms a by (auto simp: retryLoop2.simps [of e p attempt s tr err])
    moreover have "launches ([LaunchChrome] @ ?slp) = 1" "count isXvfbKill ([LaunchChrome] @ ?slp) = 0"
      "count isPulseUnload ([LaunchChrome] @ ?slp) = 0" "foldl live_step [] ([LaunchChrome] @ ?slp) = []"
      "count isXvfbStart ([LaunchChrome] @ ?slp) = 0" "count isPulseLoad ([LaunchChrome] @ ?slp) = 0"
      "\<forall>n\<le>1. snd (foldl peak_step ([], n) ([LaunchChrome] @ ?slp)) \<le> 1"
      by (simp_all add: launches_def count_def)
    ultimately show ?thesis by blast
  next
    assume a: "attempt2 e p attempt s tr =
        (s\<lparr>closeChrome := Some ?h\<rparr>, tr @ [LaunchChrome, ChromeAlloc ?h], seen2 e p attempt)"
    have "retryLoop2 e p attempt s tr err
          = retryLoop2 e p (attempt + 1) s (tr @ ([LaunchChrome, ChromeAlloc ?h, ChromeCancel ?h] @ ?slp))
              (seen2 e p attempt)"
      using assms a
      by (auto simp: retryLoop2.simps [of e p attempt s tr err] closeChrome_None_upd)
    moreover have "launches ([LaunchChrome, ChromeAlloc ?h, ChromeCancel ?h] @ ?slp) = 1"
      "count isXvfbKill ([LaunchChrome, ChromeAlloc ?h, ChromeCancel ?h] @ ?slp) = 0"
      "count isPulseUnload ([LaunchChrome, ChromeAlloc ?h, ChromeCancel ?h] @ ?slp) = 0"
      "count isXvfbStart ([LaunchChrome, ChromeAlloc ?h, ChromeCancel ?h] @ ?slp) = 0"
      "count isPulseLoad ([LaunchChrome, ChromeAlloc ?h, ChromeCancel ?h] @ ?slp) = 0"
      "foldl live_step [] ([LaunchChrome, ChromeAlloc ?h, ChromeCancel ?h] @ ?slp) = []"
      "\<forall>n\<le>1. snd (foldl peak_step ([], n) ([LaunchChrome, ChromeAlloc ?h, ChromeCancel ?h] @ ?slp)) \<le> 1"
      by (simp_all add: launches_def count_def)
    ultimately show ?thesis by blast
  qed
qed

text \<open>A successful round of the second loop.\<close>

lemma retryLoop2_ok_step:
  assumes "attempt \<le> maxRetries2" "seen2 e p attempt = None"
  shows "retryLoop2 e p attempt s tr err
         = (Some (s\<lparr>closeChrome := Some (fresh (tr @ [LaunchChrome]))\<rparr>), None,
            tr @ [LaunchChrome, ChromeAlloc (fresh (tr @ [LaunchChrome]))])"
  using attempt2_shape [of e p attempt s tr] assms
  by (auto simp: retryLoop2.simps [of e p attempt s tr err])

text \<open>The second loop past its last round.\<close>

lemma retryLoop2_exit:
  assumes "\<not> attempt \<le> maxRetries2"
  shows "retryLoop2 e p attempt s tr err = (None, err, snd (Close s tr))"
  using assms by (simp add: retryLoop2.simps [of e p attempt s tr err] split: prod.splits)

text \<open>
  The second loop when it gives up, and when it succeeds, started with no browser handle
  in the controller and none alive in the trace.
\<close>

lemma retryLoop2_None:
  assumes "maxRetries2 + 1 - attempt = n" "closeChrome s = None" "live_chrome tr = []"
    "peak_chrome tr \<le> 1" "retryLoop2 e p attempt s tr err = (None, err', tr')"
  shows "(\<forall>k. attempt \<le> k \<and> k \<le> maxRetries2 \<longrightarrow> seen2 e p k \<noteq> None)
         \<and> err' = (if attempt \<le> maxRetries2 then seen2 e p maxRetries2 else err)
         \<and> live_chrome tr' = [] \<and> peak_chrome tr' \<le> 1
         \<and> launches tr' = launches tr + (maxRetries2 + 1 - attempt)
         \<and> count isXvfbKill tr' = count isXvfbKill tr + (if xvfb s = None then 0 else 1)
         \<and> count isPulseUnload tr' = count isPulseUnload tr + (if pulseSink s = [] then 0 else 1)
         \<and> count isXvfbStart tr' = count isXvfbStart tr
         \<and> count isPulseLoad tr' = count isPulseLoad tr"
  using assms
proof (induction n arbitrary: attempt tr err)
  case 0
  then have gt: "\<not> attempt \<le> maxRetries2" by simp
  from retryLoop2_exit [OF gt, of e p s tr err] 0
  have tr': "tr' = snd (Close s tr)" and e': "err' = err" by simp_all
  show ?case
    using gt 0 tr' e'
    by (auto simp: Close_trace live_append peak_append count_def launches_def split: option.splits)
next
  case (Suc n)
  then have le: "attempt \<le> maxRetries2" and n: "maxRetries2 + 1 - (attempt + 1) = n" by simp_all
  have bad: "seen2 e p attempt \<noteq> None"
    using retryLoop2_ok_step [OF le, of e p s tr err] Suc.prems by auto
  from retryLoop2_fail_step [OF le Suc.prems(2) bad, of tr err]
  obtain mid where mid:
    "retryLoop2 e p attempt s tr err = retryLoop2 e p (attempt + 1) s (tr @ mid) (seen2 e p attempt)"
    "launches mid = 1" "count isXvfbKill mid = 0" "count isPulseUnload mid = 0"
    "foldl live_step [] mid = []" "\<forall>n\<le>1. snd (foldl peak_step ([], n) mid) \<le> 1"
    "count isXvfbStart mid = 0" "count isPulseLoad mid = 0"
    by blast
  have pre: "live_chrome (tr @ mid) = []" "peak_chrome (tr @ mid) \<le> 1"
    using Suc.prems mid by (simp_all add: live_append peak_append)
  have res: "retryLoop2 e p (attempt + 1) s (tr @ mid) (seen2 e p attempt) = (None, err', tr')"
    using mid(1) Suc.prems by simp
  note ih = Suc.IH [OF n Suc.prems(2) pre res]
  have all: "\<forall>k. attempt \<le> k \<and> k \<le> maxRetries2 \<longrightarrow> seen2 e p k \<noteq> None"
  proof (intro allI impI)
    fix k assume k: "attempt \<le> k \<and> k \<le> maxRetries2"
    show "seen2 e p k \<noteq> None"
    proof (cases "k = attempt")
      case True
      then show ?thesis using bad by simp
    next
      case False
      with k have "attempt + 1 \<le> k \<and> k \<le> maxRetries2" by simp
      with ih show ?thesis by blast
    qed
  qed
  have err': "err' = seen2 e p maxRetries2"
  proof (cases "attempt + 1 \<le> maxRetries2")
    case True
    then show ?thesis using ih by simp
  next
    case False
    with le have "attempt = maxRetries2" by simp
    then show ?thesis using ih False by simp
  qed
  show ?case
    using all err' ih mid le by (simp add: count_append launches_append)
qed

lemma retryLoop2_Some:
  assumes "maxRetries2 + 1 - attempt = n" "closeChrome s = None" "live_chrome tr = []"
    "peak_chrome tr \<le> 1" "retryLoop2 e p attempt s tr err = (Some s', err', tr')"
  shows "err' = None
         \<and> (\<exists>h. s' = s\<lparr>closeChrome := Some h\<rparr> \<and> live_chrome tr' = [h])
         \<and> peak_chrome tr' \<le> 1
         \<and> (\<exists>k. attempt \<le> k \<and> k \<le> maxRetries2 \<and> seen2 e p k = None
               \<and> (\<forall>j. attempt \<le> j \<and> j < k \<longrightarrow> seen2 e p j \<noteq> None)
               \<and> launches tr' = launches tr + (k + 1 - attempt))
         \<and> count isXvfbKill tr' = count isXvfbKill tr
         \<and> count isPulseUnload tr' = count isPulseUnload tr
         \<and> count isXvfbStart tr' = count isXvfbStart tr
         \<and> count isPulseLoad tr' = count isPulseLoad tr"
  using assms
proof (induction n arbitrary: attempt tr err)
  case 0
  then have gt: "\<not> attempt \<le> maxRetries2" by simp
  from retryLoop2_exit [OF gt, of e p s tr err] 0 show ?case by simp
next
  case (Suc n)
  then have le: "attempt \<le> maxRetries2" and n: "maxRetries2 + 1 - (attempt + 1) = n" by simp_all
  show ?case
  proof (cases "seen2 e p attempt = None")
    case True
    from retryLoop2_ok_step [OF le True, of s tr err] Suc.prems
    have s': "s' = s\<lparr>closeChrome := Some (fresh (tr @ [LaunchChrome]))\<rparr>"
      and tr': "tr' = tr @ [LaunchChrome, ChromeAlloc (fresh (tr @ [LaunchChrome]))]"
      and e': "err' = None" by simp_all
    have k: "attempt \<le> attempt \<and> attempt \<le> maxRetries2 \<and> seen2 e p attempt = None
             \<and> (\<forall>j. attempt \<le> j \<and> j < attempt \<longrightarrow> seen2 e p j \<noteq> None)
             \<and> launches tr' = launches tr + (attempt + 1 - attempt)"
      using le True tr' by (auto simp: launches_def count_def)
    have "live_chrome tr' = [fresh (tr @ [LaunchChrome])]" "peak_chrome tr' \<le> 1"
      "count isXvfbKill tr' = count isXvfbKill tr" "count isPulseUnload tr' = count isPulseUnload tr"
      "count isXvfbStart tr' = count isXvfbStart tr" "count isPulseLoad tr' = count isPulseLoad tr"
      using tr' Suc.prems by (simp_all add: live_append peak_append count_def)
    with s' e' k show ?thesis by blast
  next
    case False
    from retryLoop2_fail_step [OF le Suc.prems(2) False, of tr err]
    obtain mid where mid:
      "retryLoop2 e p attempt s tr err = retryLoop2 e p (attempt + 1) s (tr @ mid) (seen2 e p attempt)"
      "launches mid = 1" "count isXvfbKill mid = 0" "count isPulseUnload mid = 0"
      "foldl live_step [] mid = []" "\<forall>n\<le>1. snd (foldl peak_step ([], n) mid) \<le> 1"
      "count isXvfbStart mid = 0" "count isPulseLoad mid = 0"
      by blast
    have pre: "live_chrome (tr @ mid) = []" "peak_chrome (tr @ mid) \<le> 1"
      using Suc.prems mid by (simp_all add: live_append peak_append)
    have res: "retryLoop2 e p (attempt + 1) s (tr @ mid) (seen2 e p attempt) = (Some s', err', tr')"
      using mid(1) Suc.prems by simp
    note ih = Suc.IH [OF n Suc.prems(2) pre res]
    then obtain k where k: "attempt + 1 \<le> k" "k \<le> maxRetries2" "seen2 e p k = None"
      "\<forall>j. attempt + 1 \<le> j \<and> j < k \<longrightarrow> seen2 e p j \<noteq> None"
      "launches tr' = launches (tr @ mid) + (k + 1 - (attempt + 1))"
      by blast
    have "\<forall>j. attempt \<le> j \<and> j < k \<longrightarrow> seen2 e p j \<noteq> None"
    proof (intro allI impI)
      fix j assume j: "attempt \<le> j \<and> j < k"
      show "seen2 e p j \<noteq> None"
      proof (cases "j = attempt")
        case True
        then show ?thesis using False by simp
      next
        case F: False
        with j have "attempt + 1 \<le> j \<and> j < k" by simp
        with k(4) show ?thesis by blast
      qed
    qed
    moreover have "launches tr' = launches tr + (k + 1 - attempt)"
      using k(1) k(5) mid(2) by (simp add: launches_append)
    moreover have "attempt \<le> k" using k(1) by simp
    ultimately have "\<exists>k. attempt \<le> k \<and> k \<le> maxRetries2 \<and> seen2 e p k = None
               \<and> (\<forall>j. attempt \<le> j \<and> j < k \<longrightarrow> seen2 e p j \<noteq> None)
               \<and> launches tr' = launches tr + (k + 1 - attempt)"
      using k(2) k(3) by blast
    then show ?thesis using ih mid by (simp add: count_append)
  qed
qed

subsection \<open>First copy\<close>

lemma retryLoop1_fail_step:
  assumes "attempt \<le> maxRetries1" "seen1 e p attempt \<noteq> None"
  shows "\<exists>c mid. retryLoop1 e p attempt s tr err
                 = retryLoop1 e p (attempt + 1) (s\<lparr>closeChrome := c\<rparr>) (tr @ mid) (seen1 e p attempt)
           \<and> launches mid = 1 \<and> count isXvfbKill mid = 0 \<and> count isPulseUnload mid = 0"
proof -
  let ?h = "fresh (tr @ [LaunchChrome])"
  let ?slp = "if attempt < maxRetries1 then [Sleep retryDelay1] else []"
  from attempt1_shape [of e p attempt s tr]
  show ?thesis
  proof
    assume a: "attempt1 e p attempt s tr = (s, tr @ [LaunchChrome], seen1 e p attempt)
               \<and> seen1 e p attempt \<noteq> None"
    have "retryLoop1 e p attempt s tr err
          = retryLoop1 e p (attempt + 1) (s\<lparr>closeChrome := closeChrome s\<rparr>)
              (tr @ ([LaunchChrome] @ ?slp)) (seen1 e p attempt)"
      using assms a by (auto simp: retryLoop1.simps [of e p attempt s tr err] closeChrome_upd_idem)
    moreover have "launches ([LaunchChrome] @ ?slp) = 1" "count isXvfbKill ([LaunchChrome] @ ?slp) = 0"
      "count isPulseUnload ([LaunchChrome] @ ?slp) = 0"
      by (simp_all add: launches_def count_def)
    ultimately show ?thesis by blast
  next
    assume a: "attempt1 e p attempt s tr =
        (s\<lparr>closeChrome := Some ?h\<rparr>, tr @ [LaunchChrome, ChromeAlloc ?h], seen1 e p attempt)"
    have "retryLoop1 e p attempt s tr err
          = retryLoop1 e p (attempt + 1) (s\<lparr>closeChrome := Some ?h\<rparr>)
              (tr @ ([LaunchChrome, ChromeAlloc ?h] @ ?slp)) (seen1 e p attempt)"
      using assms a
      by (auto simp: retryLoop1.simps [of e p attempt s tr err])
    moreover have "launches ([LaunchChrome, ChromeAlloc ?h] @ ?slp) = 1"
      "count isXvfbKill ([LaunchChrome, ChromeAlloc ?h] @ ?slp) = 0"
      "count isPulseUnload ([LaunchChrome, ChromeAlloc ?h] @ ?slp) = 0"
      by (simp_all add: launches_def count_def)
    ultimately show ?thesis by blast
  qed
qed

lemma retryLoop1_ok_step:
  assumes "attempt \<le> maxRetries1" "seen1 e p attempt = None"
  shows "retryLoop1 e p attempt s tr err
         = (Some (s\<lparr>closeChrome := Some (fresh (tr @ [LaunchChrome]))\<rparr>), None,
            tr @ [LaunchChrome, ChromeAlloc (fresh (tr @ [LaunchChrome]))])"
  using attempt1_shape [of e p attempt s tr] assms
  by (auto simp: retryLoop1.simps [of e p attempt s tr err])

lemma retryLoop1_exit:
  assumes "\<not> attempt \<le> maxRetries1"
  shows "retryLoop1 e p attempt s tr err = (None, err, snd (Close s tr))"
  using assms by (simp add: retryLoop1.simps [of e p attempt s tr err] split: prod.splits)

lemma retryLoop1_None:
  assumes "maxRetries1 + 1 - attempt = n" "retryLoop1 e p attempt s tr err = (None, err', tr')"
  shows "(\<forall>k. attempt \<le> k \<and> k \<le> maxRetries1 \<longrightarrow> seen1 e p k \<noteq> None)
         \<and> err' = (if attempt \<le> maxRetries1 then seen1 e p maxRetries1 else err)
         \<and> launches tr' = launches tr + (maxRetries1 + 1 - attempt)
         \<and> count isXvfbKill tr' = count isXvfbKill tr + (if xvfb s = None then 0 else 1)
         \<and> count isPulseUnload tr' = count isPulseUnload tr + (if pulseSink s = [] then 0 else 1)"
  using assms
proof (induction n arbitrary: attempt s tr err)
  case 0
  then have gt: "\<not> attempt \<le> maxRetries1" by simp
  from retryLoop1_exit [OF gt, of e p s tr err] 0
  have tr': "tr' = snd (Close s tr)" and e': "err' = err" by simp_all
  show ?case
    using gt 0 tr' e'
    by (auto simp: Close_trace count_def launches_def split: option.splits)
next
  case (Suc n)
  then have le: "attempt \<le> maxRetries1" and n: "maxRetries1 + 1 - (attempt + 1) = n" by simp_all
  have bad: "seen1 e p attempt \<noteq> None"
    using retryLoop1_ok_step [OF le, of e p s tr err] Suc.prems by auto
  from retryLoop1_fail_step [OF le bad, of s tr err]
  obtain c mid where mid:
    "retryLoop1 e p attempt s tr err
       = retryLoop1 e p (attempt + 1) (s\<lparr>closeChrome := c\<rparr>) (tr @ mid) (seen1 e p attempt)"
    "launches mid = 1" "count isXvfbKill mid = 0" "count isPulseUnload mid = 0"
    by blast
  have res: "retryLoop1 e p (attempt + 1) (s\<lparr>closeChrome := c\<rparr>) (tr @ mid) (seen1 e p attempt)
             = (None, err', tr')"
    using mid(1) Suc.prems by simp
  note ih = Suc.IH [OF n res]
  have all: "\<forall>k. attempt \<le> k \<and> k \<le> maxRetries1 \<longrightarrow> seen1 e p k \<noteq> None"
  proof (intro allI impI)
    fix k assume k: "attempt \<le> k \<and> k \<le> maxRetries1"
    show "seen1 e p k \<noteq> None"
    proof (cases "k = attempt")
      case True
      then show ?thesis using bad by simp
    next
      case False
      with k have "attempt + 1 \<le> k \<and> k \<le> maxRetries1" by simp
      with ih show ?thesis by blast
    qed
  qed
  have err': "err' = seen1 e p maxRetries1"
  proof (cases "attempt + 1 \<le> maxRetries1")
    case True
    then show ?thesis using ih by simp
  next
    case False
    with le have "attempt = maxRetries1" by simp
    then show ?thesis using ih False by simp
  qed
  show ?case
    using all err' ih mid le by (simp add: count_append launches_append)
qed

lemma retryLoop1_Some:
  assumes "maxRetries1 + 1 - attempt = n" "retryLoop1 e p attempt s tr err = (Some s', err', tr')"
  shows "err' = None
         \<and> (\<exists>h. s' = s\<lparr>closeChrome := Some h\<rparr>)
         \<and> (\<exists>k. attempt \<le> k \<and> k \<le> maxRetries1 \<and> seen1 e p k = None)"
  using assms
proof (induction n arbitrary: attempt s tr err)
  case 0
  then have gt: "\<not> attempt \<le> maxRetries1" by simp
  from retryLoop1_exit [OF gt, of e p s tr err] 0 show ?case by simp
next
  case (Suc n)
  then have le: "attempt \<le> maxRetries1" and n: "maxRetries1 + 1 - (attempt + 1) = n" by simp_all
  show ?case
  proof (cases "seen1 e p attempt = None")
    case True
    from retryLoop1_ok_step [OF le True, of s tr err] Suc.prems le True
    show ?thesis by auto
  next
    case False
    from retryLoop1_fail_step [OF le False, of s tr err]
    obtain c mid where mid:
      "retryLoop1 e p attempt s tr err
         = retryLoop1 e p (attempt + 1) (s\<lparr>closeChrome := c\<rparr>) (tr @ mid) (seen1 e p attempt)"
      by blast
    have res: "retryLoop1 e p (attempt + 1) (s\<lparr>closeChrome := c\<rparr>) (tr @ mid) (seen1 e p attempt)
               = (Some s', err', tr')"
      using mid(1) Suc.prems by simp
    note ih = Suc.IH [OF n res]
    then obtain h k where "s' = s\<lparr>closeChrome := c\<rparr>\<lparr>closeChrome := Some h\<rparr>"
      "attempt + 1 \<le> k" "k \<le> maxRetries1" "seen1 e p k = None" by blast
    then have "s' = s\<lparr>closeChrome := Some h\<rparr>" "attempt \<le> k \<and> k \<le> maxRetries1 \<and> seen1 e p k = None"
      by simp_all
    with ih show ?thesis by blast
  qed
qed

section \<open>NewWebSource\<close>

text \<open>\<open>NewWebSource\<close> by the fate of the sink and of the display.\<close>

lemma NewWebSource1_after_setup:
  assumes "pactl e = Inr out" "xvfb_Start e = None"
  shows "NewWebSource1 e p =
           retryLoop1 e (p\<lparr>Display := 10 + rand_Intn e\<rparr>) 1
             \<lparr>pulseSink = TrimRight_nl out, xvfb = Some (10 + rand_Intn e), closeChrome = None,
              startRecording = (if AwaitStartSignal p then Some Open else None),
              endRecording = Some Open, info = EgressId p\<rparr>
             [PulseLoad (EgressId p), XvfbStart (10 + rand_Intn e)] None"
  using assms by (simp add: NewWebSource1_def createPulseSink_def launchXvfb_def)

lemma NewWebSource2_after_setup:
  assumes "pactl e = Inr out" "xvfb_Start e = None"
  shows "NewWebSource2 e p =
           retryLoop2 e (p\<lparr>Display := 10 + rand_Intn e\<rparr>) 1
             \<lparr>pulseSink = TrimRight_nl out, xvfb = Some (10 + rand_Intn e), closeChrome = None,
              startRecording = (if AwaitStartSignal p then Some Open else None),
              endRecording = Some Open, info = EgressId p\<rparr>
             [PulseLoad (EgressId p), XvfbStart (10 + rand_Intn e)] None"
  using assms by (simp add: NewWebSource2_def createPulseSink_def launchXvfb_def)

lemma NewWebSource1_pactl_fails:
  assumes "pactl e = Inl m"
  shows "NewWebSource1 e p = (None, Some (ErrProcessFailed ''pulse'' m), [])"
  using assms by (simp add: NewWebSource1_def createPulseSink_def Close_def)

lemma NewWebSource2_pactl_fails:
  assumes "pactl e = Inl m"
  shows "NewWebSource2 e p = (None, Some (ErrProcessFailed ''pulse'' m), [])"
  using assms by (simp add: NewWebSource2_def createPulseSink_def Close_def)

lemma NewWebSource1_xvfb_fails:
  assumes "pactl e = Inr out" "xvfb_Start e = Some m"
  shows "NewWebSource1 e p =
           (None, Some (ErrProcessFailed ''xvfb'' m),
            PulseLoad (EgressId p) # (if TrimRight_nl out \<noteq> [] then [PulseUnload (TrimRight_nl out)] else []))"
  using assms by (simp add: NewWebSource1_def createPulseSink_def launchXvfb_def Close_def)

lemma NewWebSource2_xvfb_fails:
  assumes "pactl e = Inr out" "xvfb_Start e = Some m"
  shows "NewWebSource2 e p =
           (None, Some (ErrProcessFailed ''xvfb'' m),
            PulseLoad (EgressId p) # (if TrimRight_nl out \<noteq> [] then [PulseUnload (TrimRight_nl out)] else []))"
  using assms by (simp add: NewWebSource2_def createPulseSink_def launchXvfb_def Close_def)

lemma NewWebSource1_Some:
  assumes "NewWebSource1 e p = (Some s, err, tr)"
  shows "err = None \<and> startRecording s = (if AwaitStartSignal p then Some Open else None)
         \<and> endRecording s = Some Open \<and> closeChrome s \<noteq> None \<and> xvfb s \<noteq> None"
proof (cases "pactl e")
  case (Inl m)
  with NewWebSource1_pactl_fails [OF Inl, of p] assms show ?thesis by simp
next
  case (Inr out)
  show ?thesis
  proof (cases "xvfb_Start e")
    case (Some m)
    with NewWebSource1_xvfb_fails [OF Inr Some, of p] assms show ?thesis by simp
  next
    case None
    let ?s = "\<lparr>pulseSink = TrimRight_nl out, xvfb = Some (10 + rand_Intn e), closeChrome = None,
              startRecording = (if AwaitStartSignal p then Some Open else None),
              endRecording = Some Open, info = EgressId p\<rparr>"
    let ?tr = "[PulseLoad (EgressId p), XvfbStart (10 + rand_Intn e)]"
    from NewWebSource1_after_setup [OF Inr None, of p] assms
      retryLoop1_Some [OF refl, of e "p\<lparr>Display := 10 + rand_Intn e\<rparr>" 1 ?s ?tr None s err tr]
    show ?thesis by auto
  qed
qed

lemma NewWebSource2_Some:
  assumes "NewWebSource2 e p = (Some s, err, tr)"
  shows "err = None \<and> startRecording s = (if AwaitStartSignal p then Some Open else None)
         \<and> endRecording s = Some Open \<and> closeChrome s \<noteq> None \<and> xvfb s \<noteq> None"
proof (cases "pactl e")
  case (Inl m)
  with NewWebSource2_pactl_fails [OF Inl, of p] assms show ?thesis by simp
next
  case (Inr out)
  show ?thesis
  proof (cases "xvfb_Start e")
    case (Some m)
    with NewWebSource2_xvfb_fails [OF Inr Some, of p] assms show ?thesis by simp
  next
    case None
    let ?s = "\<lparr>pulseSink = TrimRight_nl out, xvfb = Some (10 + rand_Intn e), closeChrome = None,
              startRecording = (if AwaitStartSignal p then Some Open else None),
              endRecording = Some Open, info = EgressId p\<rparr>"
    let ?tr = "[PulseLoad (EgressId p), XvfbStart (10 + rand_Intn e)]"
    have pre: "closeChrome ?s = None" "live_chrome ?tr = []" "peak_chrome ?tr \<le> 1"
      by (simp_all add: live_chrome_def peak_chrome_def)
    from NewWebSource2_after_setup [OF Inr None, of p] assms
      retryLoop2_Some [OF refl pre, of e "p\<lparr>Display := 10 + rand_Intn e\<rparr>" 1 None s err tr]
    show ?thesis by auto
  qed
qed

text \<open>
  The second copy, when a loaded sink has a name: it returns a controller with the sink,
  the display and the one browser handle that is alive, or no controller, an error, and
  nothing left behind; and never are two browser handles alive.
\<close>

lemma NewWebSource2_all_or_nothing:
  assumes "\<forall>out. pactl e = Inr out \<longrightarrow> TrimRight_nl out \<noteq> []"
  shows "case NewWebSource2 e p of
           (r, err, tr) \<Rightarrow>
             peak_chrome tr \<le> 1 \<and>
             (case r of
                Some s \<Rightarrow>
                  err = None \<and> pulseSink s \<noteq> [] \<and> xvfb s \<noteq> None
                  \<and> (\<exists>h. closeChrome s = Some h \<and> live_chrome tr = [h])
                  \<and> count isPulseLoad tr = 1 \<and> count isPulseUnload tr = 0
                  \<and> count isXvfbStart tr = 1 \<and> count isXvfbKill tr = 0
              | None \<Rightarrow>
                  err \<noteq> None \<and> live_chrome tr = []
                  \<and> count isPulseUnload tr = count isPulseLoad tr
                  \<and> count isXvfbKill tr = count isXvfbStart tr)"
proof (cases "pactl e")
  case (Inl m)
  from NewWebSource2_pactl_fails [OF Inl, of p] show ?thesis
    by (simp add: peak_chrome_def live_chrome_def count_def)
next
  case (Inr out)
  with assms have ne: "TrimRight_nl out \<noteq> []" by simp
  show ?thesis
  proof (cases "xvfb_Start e")
    case (Some m)
    from NewWebSource2_xvfb_fails [OF Inr Some, of p] ne show ?thesis
      by (simp add: peak_chrome_def live_chrome_def count_def)
  next
    case None
    let ?p = "p\<lparr>Display := 10 + rand_Intn e\<rparr>"
    let ?s = "\<lparr>pulseSink = TrimRight_nl out, xvfb = Some (10 + rand_Intn e), closeChrome = None,
              startRecording = (if AwaitStartSignal p then Some Open else None),
              endRecording = Some Open, info = EgressId p\<rparr>"
    let ?tr = "[PulseLoad (EgressId p), XvfbStart (10 + rand_Intn e)]"
    have pre: "closeChrome ?s = None" "live_chrome ?tr = []" "peak_chrome ?tr \<le> 1"
      by (simp_all add: live_chrome_def peak_chrome_def)
    have cnt: "count isPulseLoad ?tr = 1" "count isPulseUnload ?tr = 0"
      "count isXvfbStart ?tr = 1" "count isXvfbKill ?tr = 0"
      by (simp_all add: count_def)
    obtain r err tr where res: "retryLoop2 e ?p 1 ?s ?tr None = (r, err, tr)"
      by (cases "retryLoop2 e ?p 1 ?s ?tr None") auto
    have new: "NewWebSource2 e p = (r, err, tr)"
      using NewWebSource2_after_setup [OF Inr None, of p] res by simp
    show ?thesis
    proof (cases r)
      case N: None
      from retryLoop2_None [OF refl pre, of e ?p 1 None err tr] res N
      have "seen2 e ?p maxRetries2 \<noteq> None" "err = seen2 e ?p maxRetries2"
        "live_chrome tr = []" "peak_chrome tr \<le> 1"
        "count isXvfbKill tr = count isXvfbKill ?tr + 1"
        "count isPulseUnload tr = count isPulseUnload ?tr + 1"
        "count isXvfbStart tr = count isXvfbStart ?tr"
        "count isPulseLoad tr = count isPulseLoad ?tr"
        using ne by (simp_all add: maxRetries2_def)
      with cnt new N show ?thesis by simp
    next
      case (Some s)
      from retryLoop2_Some [OF refl pre, of e ?p 1 None s err tr] res Some
      obtain h where "err = None" "s = ?s\<lparr>closeChrome := Some h\<rparr>" "live_chrome tr = [h]"
        "peak_chrome tr \<le> 1"
        "count isXvfbKill tr = count isXvfbKill ?tr"
        "count isPulseUnload tr = count isPulseUnload ?tr"
        "count isXvfbStart tr = count isXvfbStart ?tr"
        "count isPulseLoad tr = count isPulseLoad ?tr"
        by blast
      with cnt new Some ne show ?thesis by simp
    qed
  qed
qed

text \<open>
  The second copy, with a browser that fails at every attempt but the last: it succeeds
  after exactly \<open>maxRetries2\<close> launches, with never more than one browser handle alive.
\<close>

lemma NewWebSource2_retry_bound:
  assumes "pactl e = Inr out" "xvfb_Start e = None"
    "\<forall>k. 1 \<le> k \<and> k < maxRetries2 \<longrightarrow> seen2 e p k \<noteq> None" "seen2 e p maxRetries2 = None"
  shows "\<exists>s tr h. NewWebSource2 e p = (Some s, None, tr) \<and> launches tr = maxRetries2
           \<and> peak_chrome tr \<le> 1 \<and> closeChrome s = Some h \<and> live_chrome tr = [h]"
proof -
  let ?p = "p\<lparr>Display := 10 + rand_Intn e\<rparr>"
  let ?s = "\<lparr>pulseSink = TrimRight_nl out, xvfb = Some (10 + rand_Intn e), closeChrome = None,
            startRecording = (if AwaitStartSignal p then Some Open else None),
            endRecording = Some Open, info = EgressId p\<rparr>"
  let ?tr = "[PulseLoad (EgressId p), XvfbStart (10 + rand_Intn e)]"
  have pre: "closeChrome ?s = None" "live_chrome ?tr = []" "peak_chrome ?tr \<le> 1"
    by (simp_all add: live_chrome_def peak_chrome_def)
  obtain r err tr where res: "retryLoop2 e ?p 1 ?s ?tr None = (r, err, tr)"
    by (cases "retryLoop2 e ?p 1 ?s ?tr None") auto
  have new: "NewWebSource2 e p = (r, err, tr)"
    using NewWebSource2_after_setup [OF assms(1,2), of p] res by simp
  show ?thesis
  proof (cases r)
    case None
    from retryLoop2_None [OF refl pre, of e ?p 1 None err tr] res None
    have "seen2 e ?p maxRetries2 \<noteq> None" by (simp add: maxRetries2_def)
    with assms(4) show ?thesis by (simp add: seen2_Display)
  next
    case (Some s)
    from retryLoop2_Some [OF refl pre, of e ?p 1 None s err tr] res Some
    obtain h k where a: "err = None" "s = ?s\<lparr>closeChrome := Some h\<rparr>" "live_chrome tr = [h]"
      "peak_chrome tr \<le> 1" "1 \<le> k" "k \<le> maxRetries2" "seen2 e ?p k = None"
      "launches tr = launches ?tr + (k + 1 - 1)"
      by blast
    have "k = maxRetries2"
      using a(5,6,7) assms(3) by (cases "k < maxRetries2") (auto simp: seen2_Display)
    with a new Some show ?thesis by (simp add: launches_def count_def)
  qed
qed

lemmas ev = NewWebSource1_def NewWebSource2_def env_of_def env_ok_def env_fail_def env_hang_def
  env_flaky_def env_slow_def env_mute_def cfg0_def blank_def ws0_def page_error_def page_ok_def page_hangs_def
  page_slow_def
  createPulseSink_def launchXvfb_def TrimRight_nl_def attempt1_def launchChrome1_def
  attempt2_def launchChrome2_def Run_navigationCtx_def select_result_def navigationTimeout_def
  chromeTimeout_def second_def maxRetries1_def retryDelay1_def maxRetries2_def retryDelay2_def
  fresh_def Close_def HasPrefix_def chromeFailedToStart_def live_chrome_def peak_chrome_def
  count_def launches_def seen1_def seen2_def retryLoop1.simps retryLoop2.simps

text \<open>
  Claim C1, at the first copy with a page that shows an error at each of the three
  attempts: no controller and the last error come back, but the browser handles of the
  first two attempts are never canceled; \<open>Close\<close> cancels the third only.
\<close>

theorem NewWebSource1_leaks_on_exhaustion:
  "NewWebSource1 env_fail cfg0 =
     (None, Some (ErrPageLoadFailed ''room not found''),
      [PulseLoad ''EG_1'', XvfbStart 99,
       LaunchChrome, ChromeAlloc 0, Sleep 5000000000,
       LaunchChrome, ChromeAlloc 1, Sleep 5000000000,
       LaunchChrome, ChromeAlloc 2,
       ChromeCancel 2, XvfbKill 99, XvfbWait 99, PulseUnload ''23''])
   \<and> live_chrome (snd (snd (NewWebSource1 env_fail cfg0))) = [0, 1]"
  by (simp add: ev)

text \<open>
  Claim C2, at the first copy with a browser that fails at the first two attempts and
  loads at the third: the controller comes back after three launches, but no browser
  handle was canceled on the way, and three of them are alive at the end.
\<close>

theorem NewWebSource1_no_cancel_between_attempts:
  "seen1 env_flaky cfg0 1 \<noteq> None \<and> seen1 env_flaky cfg0 2 \<noteq> None
   \<and> seen1 env_flaky cfg0 3 = None
   \<and> NewWebSource1 env_flaky cfg0 =
       (Some (ws0\<lparr>closeChrome := Some 2\<rparr>), None,
        [PulseLoad ''EG_1'', XvfbStart 99,
         LaunchChrome, ChromeAlloc 0, Sleep 5000000000,
         LaunchChrome, ChromeAlloc 1, Sleep 5000000000,
         LaunchChrome, ChromeAlloc 2])
   \<and> launches (snd (snd (NewWebSource1 env_flaky cfg0))) = maxRetries1
   \<and> count isChromeCancel (snd (snd (NewWebSource1 env_flaky cfg0))) = 0
   \<and> live_chrome (snd (snd (NewWebSource1 env_flaky cfg0))) = [0, 1, 2]
   \<and> peak_chrome (snd (snd (NewWebSource1 env_flaky cfg0))) = 3"
  by (simp add: ev)

text \<open>
  Against claim C3 as stated: with a browser that never answers, both copies return the
  error of the last attempt itself, not an \<open>ExhaustedRetries\<close> around it. And when \<open>pactl\<close>
  has loaded the sink and printed no name, \<open>Close\<close> finds \<open>pulseSink\<close> empty and asks for
  no unload.
\<close>

theorem NewWebSource_returns_last_error_unwrapped:
  "fst (NewWebSource2 env_hang cfg0) = None
   \<and> fst (snd (NewWebSource2 env_hang cfg0)) = Some (ErrPageLoadFailed ''timed out'')
   \<and> fst (snd (NewWebSource2 env_hang cfg0))
        \<noteq> Some (ErrExhaustedRetries (ErrPageLoadFailed ''timed out''))
   \<and> fst (snd (NewWebSource1 env_hang cfg0)) = Some (ErrPageLoadFailed ''timed out'')
   \<and> count isPulseLoad (snd (snd (NewWebSource2 env_mute cfg0))) = 1
   \<and> count isPulseUnload (snd (snd (NewWebSource2 env_mute cfg0))) = 0"
  by (simp add: ev)

text \<open>
  Claim C3, amended. When the sink is loaded under a name that is not empty, the display
  starts and the launch fails at every attempt, \<open>NewWebSource\<close> enters \<open>launchChrome\<close>
  exactly \<open>maxRetries\<close> times (3 in the first copy, 5 in the second), returns no controller
  and the error of the last attempt as it is, and has killed the display once and asked
  for the unload of the sink once.
\<close>

theorem exhaustion_returns_last_error:
  assumes "pactl e = Inr out" "TrimRight_nl out \<noteq> []" "xvfb_Start e = None"
  shows "((\<forall>k. 1 \<le> k \<and> k \<le> maxRetries1 \<longrightarrow> seen1 e p k \<noteq> None) \<longrightarrow>
            (\<exists>tr. NewWebSource1 e p = (None, seen1 e p maxRetries1, tr)
                 \<and> launches tr = maxRetries1
                 \<and> count isXvfbKill tr = 1 \<and> count isPulseUnload tr = 1))
       \<and> ((\<forall>k. 1 \<le> k \<and> k \<le> maxRetries2 \<longrightarrow> seen2 e p k \<noteq> None) \<longrightarrow>
            (\<exists>tr. NewWebSource2 e p = (None, seen2 e p maxRetries2, tr)
                 \<and> launches tr = maxRetries2
                 \<and> count isXvfbKill tr = 1 \<and> count isPulseUnload tr = 1))"
proof (intro conjI impI)
  let ?p = "p\<lparr>Display := 10 + rand_Intn e\<rparr>"
  let ?s = "\<lparr>pulseSink = TrimRight_nl out, xvfb = Some (10 + rand_Intn e), closeChrome = None,
              startRecording = (if AwaitStartSignal p then Some Open else None),
              endRecording = Some Open, info = EgressId p\<rparr>"
  let ?tr = "[PulseLoad (EgressId p), XvfbStart (10 + rand_Intn e)]"
  assume all: "\<forall>k. 1 \<le> k \<and> k \<le> maxRetries1 \<longrightarrow> seen1 e p k \<noteq> None"
  obtain r err' tr' where res: "retryLoop1 e ?p 1 ?s ?tr None = (r, err', tr')"
    by (cases "retryLoop1 e ?p 1 ?s ?tr None") auto
  have "r = None"
  proof (cases r)
    case None
    then show ?thesis .
  next
    case (Some s')
    from retryLoop1_Some [OF refl, of e ?p 1 ?s ?tr None s' err' tr'] res Some all
    show ?thesis by (auto simp: seen1_Display)
  qed
  with res retryLoop1_None [OF refl, of e ?p 1 ?s ?tr None err' tr'] assms
  have "err' = seen1 e p maxRetries1" "launches tr' = maxRetries1"
    "count isXvfbKill tr' = 1" "count isPulseUnload tr' = 1"
    by (simp_all add: seen1_Display maxRetries1_def launches_def count_def)
  with res \<open>r = None\<close> NewWebSource1_after_setup [OF assms(1) assms(3), of p]
  show "\<exists>tr. NewWebSource1 e p = (None, seen1 e p maxRetries1, tr)
                 \<and> launches tr = maxRetries1
                 \<and> count isXvfbKill tr = 1 \<and> count isPulseUnload tr = 1"
    by simp
next
  let ?p = "p\<lparr>Display := 10 + rand_Intn e\<rparr>"
  let ?s = "\<lparr>pulseSink = TrimRight_nl out, xvfb = Some (10 + rand_Intn e), closeChrome = None,
              startRecording = (if AwaitStartSignal p then Some Open else None),
              endRecording = Some Open, info = EgressId p\<rparr>"
  let ?tr = "[PulseLoad (EgressId p), XvfbStart (10 + rand_Intn e)]"
  assume all: "\<forall>k. 1 \<le> k \<and> k \<le> maxRetries2 \<longrightarrow> seen2 e p k \<noteq> None"
  have pre: "closeChrome ?s = None" "live_chrome ?tr = []" "peak_chrome ?tr \<le> 1"
    by (simp_all add: live_chrome_def peak_chrome_def)
  obtain r err' tr' where res: "retryLoop2 e ?p 1 ?s ?tr None = (r, err', tr')"
    by (cases "retryLoop2 e ?p 1 ?s ?tr None") auto
  have "r = None"
  proof (cases r)
    case None
    then show ?thesis .
  next
    case (Some s')
    from retryLoop2_Some [OF refl pre, of e ?p 1 None s' err' tr'] res Some all
    show ?thesis by (auto simp: seen2_Display)
  qed
  with res retryLoop2_None [OF refl pre, of e ?p 1 None err' tr'] assms
  have "err' = seen2 e p maxRetries2" "launches tr' = maxRetries2"
    "count isXvfbKill tr' = 1" "count isPulseUnload tr' = 1"
    by (simp_all add: seen2_Display maxRetries2_def launches_def count_def)
  with res \<open>r = None\<close> NewWebSource2_after_setup [OF assms(1) assms(3), of p]
  show "\<exists>tr. NewWebSource2 e p = (None, seen2 e p maxRetries2, tr)
                 \<and> launches tr = maxRetries2
                 \<and> count isXvfbKill tr = 1 \<and> count isPulseUnload tr = 1"
    by simp
qed

theorem exhaustion_returns_last_error_witness:
  "pactl env_fail = Inr (''23'' @ [CHR 0x0A]) \<and> TrimRight_nl (''23'' @ [CHR 0x0A]) \<noteq> []
   \<and> xvfb_Start env_fail = None
   \<and> seen1 env_fail cfg0 1 \<noteq> None \<and> seen1 env_fail cfg0 2 \<noteq> None \<and> seen1 env_fail cfg0 3 \<noteq> None
   \<and> (\<exists>tr. NewWebSource1 env_fail cfg0 = (None, Some (ErrPageLoadFailed ''room not found''), tr)
          \<and> launches tr = 3 \<and> count isXvfbKill tr = 1 \<and> count isPulseUnload tr = 1)
   \<and> (\<exists>tr. NewWebSource2 env_fail cfg0 = (None, Some (ErrPageLoadFailed ''room not found''), tr)
          \<and> launches tr = 5 \<and> count isXvfbKill tr = 1 \<and> count isPulseUnload tr = 1)"
proof -
  have s1: "seen1 env_fail cfg0 k = Some (ErrPageLoadFailed ''room not found'')" for k
    by (simp add: ev)
  have s2: "seen2 env_fail cfg0 k = Some (ErrPageLoadFailed ''room not found'')" for k
    by (simp add: ev)
  have h: "pactl env_fail = Inr (''23'' @ [CHR 0x0A])" "TrimRight_nl (''23'' @ [CHR 0x0A]) \<noteq> []"
    "xvfb_Start env_fail = None"
    by (simp_all add: env_fail_def env_of_def TrimRight_nl_def)
  from exhaustion_returns_last_error [OF h, of cfg0] s1 s2 h
  show ?thesis by (simp add: maxRetries1_def maxRetries2_def)
qed

text \<open>
  Claim C6, at a browser that never answers and at one whose navigation takes 50 seconds.
  The timer of the supervisor (45 seconds) is not larger than the deadline of the
  navigation of the first copy (60 seconds) but smaller. With the first browser
  \<open>launchChrome\<close> would return "navigation timed out" at 60 seconds, and the supervisor has
  given the attempt up as "timed out" at 45. With the second browser \<open>launchChrome\<close>
  returns success at 51 seconds, within its own deadline, and the supervisor has given
  that attempt up as "timed out" too.
\<close>

theorem wall_clock_below_navigation_timeout:
  "chromeTimeout = 45 * second \<and> navigationTimeout = 60 * second
   \<and> \<not> navigationTimeout < chromeTimeout
   \<and> snd (snd (launchChrome1 env_hang cfg0 page_hangs blank []))
       = (Some navigationTimeout, Some (ErrPageLoadFailed ''navigation timed out''))
   \<and> snd (snd (attempt1 env_hang cfg0 1 blank [])) = Some (ErrPageLoadFailed ''timed out'')
   \<and> snd (snd (launchChrome1 env_slow cfg0 page_slow blank [])) = (Some (51 * second), None)
   \<and> snd (snd (attempt1 env_slow cfg0 1 blank [])) = Some (ErrPageLoadFailed ''timed out'')"
  by (simp add: ev)

text \<open>
  Against claim C7 as stated: without a gated start the controller that \<open>NewWebSource\<close>
  returns holds the nil channel as its start signal, and a receive from the nil channel
  is never ready.
\<close>

theorem StartRecording_nil_without_gating:
  "\<not> AwaitStartSignal cfg0
   \<and> fst (NewWebSource2 env_ok cfg0) = Some ws0
   \<and> StartRecording ws0 = None
   \<and> \<not> recv_ready (StartRecording ws0)"
  by (simp add: ev StartRecording_def)

text \<open>
  Claim C7, amended. \<open>StartRecording\<close> returns the field \<open>startRecording\<close> of the controller.
  On a controller returned by \<open>NewWebSource\<close> it is the nil channel exactly when the
  configuration did not ask for a gated start; then it has not occurred, and after any
  events of the target it is still nil and still has not occurred.
\<close>

theorem StartRecording_nil_iff_not_gated:
  assumes "NewWebSource1 e p = (Some s, err, tr) \<or> NewWebSource2 e p = (Some s, err, tr)"
  shows "StartRecording s = startRecording s
       \<and> (StartRecording s = None \<longleftrightarrow> \<not> AwaitStartSignal p)
       \<and> (\<not> AwaitStartSignal p \<longrightarrow>
            \<not> recv_ready (StartRecording s)
            \<and> (\<forall>evs. \<exists>s'. handleEvents s evs = Inr s' \<and> StartRecording s' = None
                         \<and> \<not> recv_ready (StartRecording s')))"
proof -
  from assms NewWebSource1_Some [of e p s err tr] NewWebSource2_Some [of e p s err tr]
  have sr: "startRecording s = (if AwaitStartSignal p then Some Open else None)" by blast
  have "\<exists>s'. handleEvents s evs = Inr s' \<and> startRecording s' = None
             \<and> \<not> recv_ready (startRecording s')"
    if "\<not> AwaitStartSignal p" for evs
  proof -
    from consoleArgs_start_nil [of s "consoleArgsOf evs"] sr that
    obtain s' where "handleEvents s evs = Inr s'" "startRecording s' = None"
      by (auto simp: handleEvents_consoleArgsOf)
    then show ?thesis by auto
  qed
  with sr show ?thesis by (auto simp: StartRecording_def)
qed

theorem StartRecording_nil_iff_not_gated_witness:
  "NewWebSource2 env_ok cfg0 =
     (Some ws0, None, [PulseLoad ''EG_1'', XvfbStart 99, LaunchChrome, ChromeAlloc 0])
   \<and> \<not> AwaitStartSignal cfg0
   \<and> StartRecording ws0 = None
   \<and> \<not> recv_ready (StartRecording ws0)"
proof -
  have r: "NewWebSource2 env_ok cfg0 =
     (Some ws0, None, [PulseLoad ''EG_1'', XvfbStart 99, LaunchChrome, ChromeAlloc 0])"
    by (simp add: ev)
  have g: "\<not> AwaitStartSignal cfg0" by (simp add: cfg0_def)
  from StartRecording_nil_iff_not_gated [OF disjI2, OF r] g r show ?thesis by blast
qed

section \<open>The uploader\<close>

lemmas up = Upload_remote_def os_MkdirAll_def os_Stat_def os_Remove_def copyFile_def called_def
  Debugw_def path_Join_def path_Dir_def Clean_rooted_def clean_step_def outDir_def Let_def
  files_def file_of_def same_file_def refused_def upload_calls_def

text \<open>\<open>path.Join\<close> and \<open>path.Dir\<close> on some paths.\<close>

lemma path_Join_examples:
  "path_Join outDir ''room/a.mp4'' = ''/out/recordings/room/a.mp4''"
  "path_Join outDir ''../../etc//./x'' = ''/etc/x''"
  "path_Join outDir [] = ''/out/recordings''"
  "path_Dir ''/out/recordings/room/a.mp4'' = ''/out/recordings/room''"
  "path_Dir ''/a'' = ''/''"
  by (simp_all add: up)

text \<open>
  The remote uploader never looks at its backend; its result never depends on the removal;
  and with removal it is the upload without removal followed, when that succeeded, by one
  \<open>os.Remove\<close> of the local file whose error is only logged.
\<close>

lemma Upload_remote_backend_free:
  "Upload_remote u w l st ot d ft = Upload_remote u' w l st ot d ft"
  by (simp add: Upload_remote_def)

lemma Upload_result_ignores_delete:
  "snd (Upload_remote u w l st ot True ft) = snd (Upload_remote u w l st ot False ft)"
  by (simp add: Upload_remote_def Let_def split: prod.splits option.splits sum.splits)

lemma Upload_remote_delete:
  "Upload_remote u w l st ot True ft =
     (case Upload_remote u w l st ot False ft of
        (w0, loc, sz, Some e) \<Rightarrow> (w0, loc, sz, Some e)
      | (w0, loc, sz, None) \<Rightarrow>
          (case os_Remove w0 l of
             (w1, None) \<Rightarrow> (w1, loc, sz, None)
           | (w1, Some e) \<Rightarrow> (Debugw ''failed to delete original file'' w1, loc, sz, None)))"
  by (auto simp: Upload_remote_def Let_def split: prod.splits option.splits sum.splits)

text \<open>What the calls of the system leave behind.\<close>

lemma calls_Debugw: "calls (Debugw m w) = calls w"
  by (simp add: Debugw_def)

lemma files_Debugw: "files (Debugw m w) = files w"
  by (rule ext) (simp add: Debugw_def files_def file_of_def)

lemma files_called: "files (called c w) = files w"
  by (rule ext) (simp add: called_def files_def file_of_def)

lemma refused_simps:
  "refused w (MkdirAll d) = fails w (MkdirAll d)"
  "refused w (Create f) = fails w (Create f)"
  "refused w (Copy f g) = fails w (Copy f g)"
  "refused w (Stat f) = fails w (Stat f)"
  "refused w (Remove f) = fails w (Remove f)"
  "refused w (Open_file f) =
     (case fails w (Open_file f) of
        Some m \<Rightarrow> Some m
      | None \<Rightarrow> (if files w f = None then Some ''no such file or directory'' else None))"
  by (simp_all add: refused_def split: option.splits)

lemma refused_called: "refused (called c w) = refused w"
  by (intro ext) (simp add: refused_def called_def files_def file_of_def split: option.splits sys_call.splits)

lemma os_MkdirAll_eq: "os_MkdirAll w d = (w1, r) \<Longrightarrow> w1 = called (MkdirAll d) w \<and> r = refused w (MkdirAll d)"
  by (auto simp: os_MkdirAll_def refused_simps)

lemma os_Remove_calls: "os_Remove w f = (w1, r) \<Longrightarrow> calls w1 = calls w @ [Remove f]"
  by (auto simp: os_Remove_def called_def split: option.splits)

lemma os_Remove_fails: "os_Remove w f = (w1, Some m) \<Longrightarrow> files w1 = files w"
  by (auto simp: os_Remove_def files_called split: option.splits)

lemma os_Remove_fails_logs: "os_Remove w f = (w1, Some m) \<Longrightarrow> logs w1 = logs w"
  by (auto simp: os_Remove_def called_def split: option.splits)

lemma os_Stat_eq:
  assumes "os_Stat w f = (w1, r)"
  shows "w1 = called (Stat f) w
       \<and> (case r of
             Inl e \<Rightarrow> fails w (Stat f) = Some e \<or> (fails w (Stat f) = None \<and> files w f = None)
           | Inr n \<Rightarrow> fails w (Stat f) = None \<and> (\<exists>c. files w f = Some c \<and> n = int (length c)))"
  using assms by (auto simp: os_Stat_def split: option.splits)

lemma upload_calls_eq:
  "upload_calls l st =
     [MkdirAll (path_Dir (path_Join outDir st)), Open_file l, Create (path_Join outDir st),
      Copy l (path_Join outDir st), Stat (path_Join outDir st), Remove l]"
  by (simp add: upload_calls_def Let_def)

text \<open>\<open>copyFile\<close> when it succeeds, and when it fails.\<close>

lemma copyFile_ok:
  assumes "copyFile w src dst = (w1, None)"
  shows "refused w (Open_file src) = None \<and> fails w (Create dst) = None
       \<and> fails w (Copy src dst) = None
       \<and> w1 = w\<lparr>calls := calls w @ [Open_file src, Create dst, Copy src dst],
                 present := (present w)(entry w dst := True),
                 data := (data w)(file_of w dst :=
                           (if same_file w src dst then [] else data w (file_of w src)))\<rparr>"
  using assms
  by (auto simp: copyFile_def called_def Let_def files_def file_of_def same_file_def refused_simps
      split: option.splits if_splits)

lemma copyFile_err:
  assumes "copyFile w src dst = (w1, Some e)"
  shows "(refused w (Open_file src) = Some e \<and> calls w1 = calls w @ [Open_file src])
       \<or> (refused w (Open_file src) = None \<and> fails w (Create dst) = Some e
           \<and> calls w1 = calls w @ [Open_file src, Create dst])
       \<or> (refused w (Open_file src) = None \<and> fails w (Create dst) = None
           \<and> fails w (Copy src dst) = Some e
           \<and> calls w1 = calls w @ [Open_file src, Create dst, Copy src dst])"
  using assms
  by (auto simp: copyFile_def called_def Let_def refused_simps split: option.splits if_splits)

text \<open>The upload without removal when it succeeds, and when it fails.\<close>

lemma Upload_remote_ok:
  assumes "Upload_remote u w l st ot False ft = (w', loc, sz, None)"
  shows "loc = path_Join outDir st
       \<and> calls w' = calls w @ take 5 (upload_calls l st)
       \<and> (\<forall>c\<in>set (take 5 (upload_calls l st)). refused w c = None)
       \<and> (\<exists>c0. files w l = Some c0
             \<and> sz = int (length (if same_file w l loc then [] else c0))
             \<and> (\<forall>p. files w' p =
                   (if entry w p = entry w loc
                    then Some (if same_file w l loc then [] else c0)
                    else (case files w p of
                            None \<Rightarrow> None
                          | Some x \<Rightarrow>
                              Some (if same_file w p loc
                                    then (if same_file w l loc then [] else c0) else x)))))
       \<and> logs w' = logs w"
proof -
  let ?out = "path_Join outDir st"
  obtain wa ra where m: "os_MkdirAll w (path_Dir ?out) = (wa, ra)"
    by (cases "os_MkdirAll w (path_Dir ?out)") auto
  obtain wb rb where c: "copyFile wa l ?out = (wb, rb)"
    by (cases "copyFile wa l ?out") auto
  obtain wc rc where s: "os_Stat wb ?out = (wc, rc)"
    by (cases "os_Stat wb ?out") auto
  from assms m c s have ok: "ra = None" "rb = None" "rc = Inr sz" "w' = wc" "loc = ?out"
    by (auto simp: Upload_remote_def split: option.splits sum.splits)
  from os_MkdirAll_eq [OF m] ok have wa: "wa = called (MkdirAll (path_Dir ?out)) w"
    and r1: "refused w (MkdirAll (path_Dir ?out)) = None" by simp_all
  from copyFile_ok [of wa l ?out wb] c ok
  have r2: "refused wa (Open_file l) = None" "fails wa (Create ?out) = None"
    "fails wa (Copy l ?out) = None"
    and wb: "wb = wa\<lparr>calls := calls wa @ [Open_file l, Create ?out, Copy l ?out],
                 present := (present wa)(entry wa ?out := True),
                 data := (data wa)(file_of wa ?out :=
                           (if same_file wa l ?out then [] else data wa (file_of wa l)))\<rparr>"
    by simp_all
  from os_Stat_eq [OF s] ok have wc: "wc = called (Stat ?out) wb"
    and r3: "fails wb (Stat ?out) = None"
    and sz: "\<exists>c. files wb ?out = Some c \<and> sz = int (length c)" by simp_all
  from r2(1) have pres: "present w (entry w l)" "fails w (Open_file l) = None"
    by (auto simp: wa refused_called refused_simps files_def split: option.splits if_splits)
  then have c0: "files w l = Some (data w (file_of w l))" by (simp add: files_def)
  have calls: "calls w' = calls w @ take 5 (upload_calls l st)"
    by (simp add: ok wc wb wa called_def upload_calls_eq)
  have ref: "\<forall>c\<in>set (take 5 (upload_calls l st)). refused w c = None"
    using r1 r2 r3 pres
    by (simp add: upload_calls_eq wa wb called_def refused_simps files_def)
  have size: "sz = int (length (if same_file w l ?out then [] else data w (file_of w l)))"
    using sz by (auto simp: wb wa called_def files_def file_of_def same_file_def)
  have fl: "files w' p =
              (if entry w p = entry w ?out
               then Some (if same_file w l ?out then [] else data w (file_of w l))
               else (case files w p of
                       None \<Rightarrow> None
                     | Some x \<Rightarrow>
                         Some (if same_file w p ?out
                               then (if same_file w l ?out then [] else data w (file_of w l))
                               else x)))" for p
    by (simp add: ok wc wb wa called_def files_def file_of_def same_file_def)
  have lg: "logs w' = logs w"
    by (simp add: ok wc wb wa called_def)
  from c0 calls ref size fl lg show ?thesis
    unfolding ok(5) by (intro conjI exI [of _ "data w (file_of w l)"] allI) simp_all
qed

lemma Upload_remote_err:
  assumes "Upload_remote u w l st ot False ft = (w', loc, sz, Some e)"
  shows "loc = [] \<and> sz = 0
       \<and> (\<exists>n. 1 \<le> n \<and> n \<le> 5
             \<and> calls w' = calls w @ take n (upload_calls l st)
             \<and> refused w (upload_calls l st ! (n - 1)) = Some e
             \<and> (\<forall>k<n - 1. refused w (upload_calls l st ! k) = None))"
proof -
  let ?out = "path_Join outDir st"
  let ?Q = "\<lambda>n. 1 \<le> n \<and> n \<le> 5
             \<and> calls w' = calls w @ take n (upload_calls l st)
             \<and> refused w (upload_calls l st ! (n - 1)) = Some e
             \<and> (\<forall>k<n - 1. refused w (upload_calls l st ! k) = None)"
  have all2: "(\<forall>k<Suc (Suc 0). P k) \<longleftrightarrow> P 0 \<and> P 1" for P
    by (auto simp: less_Suc_eq)
  have all3: "(\<forall>k<Suc (Suc (Suc 0)). P k) \<longleftrightarrow> P 0 \<and> P 1 \<and> P 2" for P
    by (auto simp: less_Suc_eq numeral_2_eq_2)
  have all4: "(\<forall>k<Suc (Suc (Suc (Suc 0))). P k) \<longleftrightarrow> P 0 \<and> P 1 \<and> P 2 \<and> P 3" for P
    by (auto simp: less_Suc_eq numeral_2_eq_2 numeral_3_eq_3)
  obtain wa ra where m: "os_MkdirAll w (path_Dir ?out) = (wa, ra)"
    by (cases "os_MkdirAll w (path_Dir ?out)") auto
  from os_MkdirAll_eq [OF m] have wa: "wa = called (MkdirAll (path_Dir ?out)) w"
    and ra: "ra = refused w (MkdirAll (path_Dir ?out))" by simp_all
  have rw: "refused wa = refused w" "fails wa = fails w" "calls wa = calls w @ [MkdirAll (path_Dir ?out)]"
    by (simp_all add: wa refused_called) (simp_all add: called_def)
  have triv: "loc = [] \<and> sz = 0"
    using assms by (auto simp: Upload_remote_def Let_def split: prod.splits option.splits sum.splits)
  have "\<exists>n. ?Q n"
  proof (cases ra)
    case (Some e1)
    with assms m have "w' = Debugw ''failed to create output directory'' wa" "e = e1"
      by (auto simp: Upload_remote_def)
    with Some ra have "?Q 1"
      by (simp add: calls_Debugw wa called_def upload_calls_eq)
    then show ?thesis by blast
  next
    case None
    obtain wb rb where c: "copyFile wa l ?out = (wb, rb)"
      by (cases "copyFile wa l ?out") auto
    show ?thesis
    proof (cases rb)
      case (Some e2)
      with assms m None c have w': "w' = Debugw ''failed to copy file to output location'' wb" "e = e2"
        by (auto simp: Upload_remote_def)
      from copyFile_err [of wa l ?out wb e2] c Some
      consider
          (a) "refused w (Open_file l) = Some e" "calls wb = calls wa @ [Open_file l]"
        | (b) "refused w (Open_file l) = None" "fails w (Create ?out) = Some e"
              "calls wb = calls wa @ [Open_file l, Create ?out]"
        | (c) "refused w (Open_file l) = None" "fails w (Create ?out) = None"
              "fails w (Copy l ?out) = Some e"
              "calls wb = calls wa @ [Open_file l, Create ?out, Copy l ?out]"
        using w'(2) by (auto simp: rw)
      then show ?thesis
      proof cases
        case a
        with None ra w' have "?Q 2"
          by (simp add: calls_Debugw rw upload_calls_eq)
        then show ?thesis by blast
      next
        case b
        with None ra w' have "?Q 3"
          by (simp add: calls_Debugw rw upload_calls_eq refused_simps(1-5)
              all2 numeral_3_eq_3)
        then show ?thesis by blast
      next
        case c
        with None ra w' have "?Q 4"
          by (simp add: calls_Debugw rw upload_calls_eq refused_simps(1-5)
              all3 numeral_eq_Suc)
        then show ?thesis by blast
      qed
    next
      case N2: None
      from copyFile_ok [of wa l ?out wb] c N2
      have r2: "refused w (Open_file l) = None" "fails w (Create ?out) = None"
        "fails w (Copy l ?out) = None"
        and wb: "wb = wa\<lparr>calls := calls wa @ [Open_file l, Create ?out, Copy l ?out],
                 present := (present wa)(entry wa ?out := True),
                 data := (data wa)(file_of wa ?out :=
                           (if same_file wa l ?out then [] else data wa (file_of wa l)))\<rparr>"
        by (simp_all add: rw)
      obtain wc rc where s: "os_Stat wb ?out = (wc, rc)"
        by (cases "os_Stat wb ?out") auto
      from assms m None c N2 s obtain e3 where rc: "rc = Inl e3" "e = e3"
        and w': "w' = Debugw ''failed to get file info'' wc"
        by (auto simp: Upload_remote_def split: sum.splits)
      have there: "files wb ?out \<noteq> None"
        by (simp add: wb files_def)
      from os_Stat_eq [OF s] rc there have wc: "wc = called (Stat ?out) wb"
        and f: "fails wb (Stat ?out) = Some e" by auto
      then have f': "fails w (Stat ?out) = Some e" by (simp add: wb wa called_def)
      from None ra r2 f' have "?Q 5"
        by (simp add: w' calls_Debugw wc wb wa called_def upload_calls_eq refused_simps(1-5)
            all4 numeral_eq_Suc)
      then show ?thesis by blast
    qed
  qed
  with triv show ?thesis by blast
qed

text \<open>
  When the local path is another spelling of the output path, \<open>os.Create\<close> truncates the
  one file before it is read: the upload succeeds with size 0 and the recording is gone.
\<close>

lemma Upload_remote_same_file:
  "snd (Upload_remote u_s3 w_alias ''/out/recordings/./a.mp4'' ''a.mp4'' ''mp4'' False ''file'')
     = (''/out/recordings/a.mp4'', 0, None)
   \<and> files (fst (Upload_remote u_s3 w_alias ''/out/recordings/./a.mp4'' ''a.mp4'' ''mp4'' False ''file''))
       ''/out/recordings/a.mp4'' = Some []"
  by (simp add: up u_s3_def w_alias_def)

text \<open>
  Against claim C8 as stated: an uploader that \<open>New\<close> builds for S3, asked to deliver a
  local file that does not exist, returns the error after one \<open>MkdirAll\<close> and one
  \<open>Open\<close>, with no second attempt; and asked to deliver a file that exists it returns the
  path under \<open>/out/recordings\<close>, not the location its backend would give.
\<close>

theorem Upload_remote_no_retry_no_backend:
  "New mk_s3 S3Upload [] = Inr (Remote u_s3)
   \<and> snd (Upload (Remote u_s3) w_empty ''/tmp/a.mp4'' ''room/a.mp4'' ''mp4'' False ''file'')
       = ([], 0, Some ''no such file or directory'')
   \<and> calls (fst (Upload (Remote u_s3) w_empty ''/tmp/a.mp4'' ''room/a.mp4'' ''mp4'' False ''file''))
       = [MkdirAll ''/out/recordings/room'', Open_file ''/tmp/a.mp4'']
   \<and> count_list
        (calls (fst (Upload (Remote u_s3) w_empty ''/tmp/a.mp4'' ''room/a.mp4'' ''mp4'' False ''file'')))
        (Open_file ''/tmp/a.mp4'') = 1
   \<and> 1 < maxRetries
   \<and> snd (Upload (Remote u_s3) w_file ''/tmp/a.mp4'' ''room/a.mp4'' ''mp4'' False ''file'')
       = (''/out/recordings/room/a.mp4'', 6, None)
   \<and> uploader u_s3 ''/tmp/a.mp4'' ''room/a.mp4'' ''mp4'' = (''s3://bucket/room/a.mp4'', 6, None)"
  by (simp add: up u_s3_def mk_s3_def w_empty_def w_file_def maxRetries_def New_def)

text \<open>
  Claim C8, amended. The remote uploader does not use its backend and does not retry.
  Whatever the backend, the result is the same. Without removal it makes the calls
  \<open>MkdirAll\<close>, \<open>Open\<close>, \<open>Create\<close>, \<open>Copy\<close>, \<open>Stat\<close> in this order, each once, up to the
  first one that the system refuses; then it returns the empty path, size 0 and the error
  of that call. When none of the five is refused it has made all five, logged nothing, and
  returns the path joined onto \<open>/out/recordings\<close>, the size of the copy and a nil error;
  the output path then holds the bytes the local file held (no bytes when both paths lead
  to one file, which \<open>Create\<close> truncates), the other entries of the output file hold the
  same, and every other path holds what it held. With removal it does the same and then,
  if the copy succeeded, makes one call of \<open>Remove\<close> on the local path, whose error is
  logged and not returned.
\<close>

theorem Upload_remote_single_local_copy:
  "Upload_remote u w l st ot d ft = Upload_remote u' w l st ot d ft
   \<and> Upload_remote u w l st ot True ft =
       (case Upload_remote u w l st ot False ft of
          (w0, loc, sz, Some e) \<Rightarrow> (w0, loc, sz, Some e)
        | (w0, loc, sz, None) \<Rightarrow>
            (case os_Remove w0 l of
               (w1, None) \<Rightarrow> (w1, loc, sz, None)
             | (w1, Some e) \<Rightarrow> (Debugw ''failed to delete original file'' w1, loc, sz, None)))
   \<and> (case Upload_remote u w l st ot False ft of
        (w', loc, sz, None) \<Rightarrow>
          loc = path_Join outDir st
          \<and> calls w' = calls w @ take 5 (upload_calls l st)
          \<and> (\<forall>c\<in>set (take 5 (upload_calls l st)). refused w c = None)
          \<and> (\<exists>c0. files w l = Some c0
                \<and> sz = int (length (if same_file w l loc then [] else c0))
                \<and> (\<forall>p. files w' p =
                      (if entry w p = entry w loc
                       then Some (if same_file w l loc then [] else c0)
                       else (case files w p of
                               None \<Rightarrow> None
                             | Some x \<Rightarrow>
                                 Some (if same_file w p loc
                                       then (if same_file w l loc then [] else c0) else x)))))
          \<and> logs w' = logs w
      | (w', loc, sz, Some e) \<Rightarrow>
          loc = [] \<and> sz = 0
          \<and> (\<exists>n. 1 \<le> n \<and> n \<le> 5
                \<and> calls w' = calls w @ take n (upload_calls l st)
                \<and> refused w (upload_calls l st ! (n - 1)) = Some e
                \<and> (\<forall>k<n - 1. refused w (upload_calls l st ! k) = None)))"
proof (intro conjI)
  show "Upload_remote u w l st ot d ft = Upload_remote u' w l st ot d ft"
    by (rule Upload_remote_backend_free)
  show "Upload_remote u w l st ot True ft =
       (case Upload_remote u w l st ot False ft of
          (w0, loc, sz, Some e) \<Rightarrow> (w0, loc, sz, Some e)
        | (w0, loc, sz, None) \<Rightarrow>
            (case os_Remove w0 l of
               (w1, None) \<Rightarrow> (w1, loc, sz, None)
             | (w1, Some e) \<Rightarrow> (Debugw ''failed to delete original file'' w1, loc, sz, None)))"
    by (rule Upload_remote_delete)
  obtain w' loc sz err where r: "Upload_remote u w l st ot False ft = (w', loc, sz, err)"
    by (cases "Upload_remote u w l st ot False ft") auto
  show "case Upload_remote u w l st ot False ft of
        (w', loc, sz, None) \<Rightarrow>
          loc = path_Join outDir st
          \<and> calls w' = calls w @ take 5 (upload_calls l st)
          \<and> (\<forall>c\<in>set (take 5 (upload_calls l st)). refused w c = None)
          \<and> (\<exists>c0. files w l = Some c0
                \<and> sz = int (length (if same_file w l loc then [] else c0))
                \<and> (\<forall>p. files w' p =
                      (if entry w p = entry w loc
                       then Some (if same_file w l loc then [] else c0)
                       else (case files w p of
                               None \<Rightarrow> None
                             | Some x \<Rightarrow>
                                 Some (if same_file w p loc
                                       then (if same_file w l loc then [] else c0) else x)))))
          \<and> logs w' = logs w
      | (w', loc, sz, Some e) \<Rightarrow>
          loc = [] \<and> sz = 0
          \<and> (\<exists>n. 1 \<le> n \<and> n \<le> 5
                \<and> calls w' = calls w @ take n (upload_calls l st)
                \<and> refused w (upload_calls l st ! (n - 1)) = Some e
                \<and> (\<forall>k<n - 1. refused w (upload_calls l st ! k) = None))"
  proof (cases err)
    case None
    show ?thesis
      unfolding r None prod.case option.case
      by (rule Upload_remote_ok [OF r [unfolded None]])
  next
    case (Some e)
    show ?thesis
      unfolding r Some prod.case option.case
      by (rule Upload_remote_err [OF r [unfolded Some]])
  qed
qed

theorem Upload_remote_single_local_copy_witness:
  "\<exists>w1 w2 w3.
      Upload_remote u_s3 w_file ''/tmp/a.mp4'' ''room/a.mp4'' ''mp4'' False ''file''
        = (w1, ''/out/recordings/room/a.mp4'', 6, None)
    \<and> calls w1 = take 5 (upload_calls ''/tmp/a.mp4'' ''room/a.mp4'')
    \<and> files w1 ''/out/recordings/room/a.mp4'' = Some ''abcdef''
    \<and> files w1 ''/tmp/a.mp4'' = Some ''abcdef''
    \<and> Upload_remote u_s3 w_file ''/tmp/a.mp4'' ''room/a.mp4'' ''mp4'' True ''file''
        = (w2, ''/out/recordings/room/a.mp4'', 6, None)
    \<and> calls w2 = upload_calls ''/tmp/a.mp4'' ''room/a.mp4''
    \<and> files w2 ''/out/recordings/room/a.mp4'' = Some ''abcdef''
    \<and> files w2 ''/tmp/a.mp4'' = None
    \<and> Upload_remote u_s3 w_empty ''/tmp/a.mp4'' ''room/a.mp4'' ''mp4'' False ''file''
        = (w3, [], 0, Some ''no such file or directory'')
    \<and> calls w3 = take 2 (upload_calls ''/tmp/a.mp4'' ''room/a.mp4'')
    \<and> refused w_empty (upload_calls ''/tmp/a.mp4'' ''room/a.mp4'' ! 0) = None
    \<and> refused w_empty (upload_calls ''/tmp/a.mp4'' ''room/a.mp4'' ! 1)
        = Some ''no such file or directory''"
proof -
  obtain w1 where a: "Upload_remote u_s3 w_file ''/tmp/a.mp4'' ''room/a.mp4'' ''mp4'' False ''file''
        = (w1, ''/out/recordings/room/a.mp4'', 6, None)"
    "files w1 ''/out/recordings/room/a.mp4'' = Some ''abcdef''"
    "files w1 ''/tmp/a.mp4'' = Some ''abcdef''"
    by (simp add: up u_s3_def w_file_def)
  from Upload_remote_single_local_copy
      [of u_s3 w_file "''/tmp/a.mp4''" "''room/a.mp4''" "''mp4''" False "''file''" u_s3,
       unfolded a(1) prod.case option.case]
  have "calls w1 = calls w_file @ take 5 (upload_calls ''/tmp/a.mp4'' ''room/a.mp4'')"
    by blast
  then have a': "calls w1 = take 5 (upload_calls ''/tmp/a.mp4'' ''room/a.mp4'')"
    by (simp add: w_file_def)
  obtain w2 where b: "Upload_remote u_s3 w_file ''/tmp/a.mp4'' ''room/a.mp4'' ''mp4'' True ''file''
        = (w2, ''/out/recordings/room/a.mp4'', 6, None)"
    "calls w2 = upload_calls ''/tmp/a.mp4'' ''room/a.mp4''"
    "files w2 ''/out/recordings/room/a.mp4'' = Some ''abcdef''"
    "files w2 ''/tmp/a.mp4'' = None"
    by (simp add: up u_s3_def w_file_def)
  obtain w3 where c: "Upload_remote u_s3 w_empty ''/tmp/a.mp4'' ''room/a.mp4'' ''mp4'' False ''file''
        = (w3, [], 0, Some ''no such file or directory'')"
    "calls w3 = take 2 (upload_calls ''/tmp/a.mp4'' ''room/a.mp4'')"
    by (simp add: up u_s3_def w_empty_def)
  have d: "refused w_empty (upload_calls ''/tmp/a.mp4'' ''room/a.mp4'' ! 0) = None"
    "refused w_empty (upload_calls ''/tmp/a.mp4'' ''room/a.mp4'' ! 1)
        = Some ''no such file or directory''"
    by (simp_all add: up w_empty_def)
  from a a' b c d have ev:
    "\<exists>w1 w2 w3.
      Upload_remote u_s3 w_file ''/tmp/a.mp4'' ''room/a.mp4'' ''mp4'' False ''file''
        = (w1, ''/out/recordings/room/a.mp4'', 6, None)
    \<and> calls w1 = take 5 (upload_calls ''/tmp/a.mp4'' ''room/a.mp4'')
    \<and> files w1 ''/out/recordings/room/a.mp4'' = Some ''abcdef''
    \<and> files w1 ''/tmp/a.mp4'' = Some ''abcdef''
    \<and> Upload_remote u_s3 w_file ''/tmp/a.mp4'' ''room/a.mp4'' ''mp4'' True ''file''
        = (w2, ''/out/recordings/room/a.mp4'', 6, None)
    \<and> calls w2 = upload_calls ''/tmp/a.mp4'' ''room/a.mp4''
    \<and> files w2 ''/out/recordings/room/a.mp4'' = Some ''abcdef''
    \<and> files w2 ''/tmp/a.mp4'' = None
    \<and> Upload_remote u_s3 w_empty ''/tmp/a.mp4'' ''room/a.mp4'' ''mp4'' False ''file''
        = (w3, [], 0, Some ''no such file or directory'')
    \<and> calls w3 = take 2 (upload_calls ''/tmp/a.mp4'' ''room/a.mp4'')
    \<and> refused w_empty (upload_calls ''/tmp/a.mp4'' ''room/a.mp4'' ! 0) = None
    \<and> refused w_empty (upload_calls ''/tmp/a.mp4'' ''room/a.mp4'' ! 1)
        = Some ''no such file or directory''"
    by blast
  from ev
    Upload_remote_single_local_copy
      [of u_s3 w_empty "''/tmp/a.mp4''" "''room/a.mp4''" "''mp4''" False "''file''" u_s3]
  show ?thesis by (rule conjunct1 [OF conjI])
qed

text \<open>
  Claim C10. When the upload without removal succeeds and the removal of the local file
  then fails, the upload with \<open>deleteAfterUpload\<close> returns the same path and size with a
  nil error; the files are as the upload left them, and the log has one more line.
\<close>

theorem delete_failure_not_surfaced:
  assumes "Upload_remote u w l st ot False ft = (w1, loc, sz, None)"
    and "os_Remove w1 l = (w2, Some m)"
  shows "Upload_remote u w l st ot True ft
           = (Debugw ''failed to delete original file'' w2, loc, sz, None)
       \<and> loc = path_Join outDir st
       \<and> files (Debugw ''failed to delete original file'' w2) = files w1
       \<and> logs (Debugw ''failed to delete original file'' w2)
           = logs w1 @ [''failed to delete original file'']"
proof -
  have "Upload_remote u w l st ot True ft
           = (Debugw ''failed to delete original file'' w2, loc, sz, None)"
    using assms by (simp add: Upload_remote_delete)
  moreover have "loc = path_Join outDir st"
    using Upload_remote_ok [OF assms(1)] by simp
  moreover have "logs (Debugw ''failed to delete original file'' w2)
           = logs w1 @ [''failed to delete original file'']"
    using os_Remove_fails_logs [OF assms(2)] by (simp add: Debugw_def)
  ultimately show ?thesis
    using os_Remove_fails [OF assms(2)] by (simp add: files_Debugw)
qed

theorem delete_failure_not_surfaced_witness:
  "\<exists>w1 w2. Upload_remote u_s3 w_locked ''/tmp/a.mp4'' ''room/a.mp4'' ''mp4'' False ''file''
             = (w1, ''/out/recordings/room/a.mp4'', 6, None)
         \<and> os_Remove w1 ''/tmp/a.mp4'' = (w2, Some ''operation not permitted'')
         \<and> Upload_remote u_s3 w_locked ''/tmp/a.mp4'' ''room/a.mp4'' ''mp4'' True ''file''
             = (Debugw ''failed to delete original file'' w2, ''/out/recordings/room/a.mp4'', 6, None)
         \<and> files w2 ''/out/recordings/room/a.mp4'' = Some ''abcdef''
         \<and> files w2 ''/tmp/a.mp4'' = Some ''abcdef''"
proof -
  obtain w1 where a: "Upload_remote u_s3 w_locked ''/tmp/a.mp4'' ''room/a.mp4'' ''mp4'' False ''file''
             = (w1, ''/out/recordings/room/a.mp4'', 6, None)"
    and f: "files w1 ''/out/recordings/room/a.mp4'' = Some ''abcdef''"
      "files w1 ''/tmp/a.mp4'' = Some ''abcdef''"
      "fails w1 (Remove ''/tmp/a.mp4'') = Some ''operation not permitted''"
    by (simp add: up u_s3_def w_locked_def)
  obtain w2 where b: "os_Remove w1 ''/tmp/a.mp4'' = (w2, Some ''operation not permitted'')"
    using f by (simp add: os_Remove_def)
  from delete_failure_not_surfaced [OF a b] a b f os_Remove_fails [OF b]
  show ?thesis by (intro exI [of _ w1] exI [of _ w2]) simp
qed

end
